theory Spec2Isabelle
  imports Main
begin

section \<open>JavaScript strings\<close>

text \<open>
  A JavaScript string is a sequence of UTF-16 code units, and \<open>length\<close>, \<open>slice\<close> and the
  regular expressions of \<open>server.js\<close> count code units. A \<open>char\<close> of HOL has 256 values, so
  the embedding writes one code unit per \<open>char\<close> and covers the code units below 256 (ASCII
  and Latin-1). The character classes below are the ones ECMAScript gives to that range.
\<close>

definition is_space :: "char \<Rightarrow> bool" where
  \<comment> \<open>the class \<open>\s\<close>, which is also what \<open>trim\<close> strips: TAB, LF, VT, FF, CR, SP, NBSP\<close>
  "is_space c \<longleftrightarrow> (of_char c :: nat) \<in> {9, 10, 11, 12, 13, 32, 160}"

definition is_line_terminator :: "char \<Rightarrow> bool" where
  \<comment> \<open>what \<open>.\<close> does not match: LF and CR\<close>
  "is_line_terminator c \<longleftrightarrow> (of_char c :: nat) \<in> {10, 13}"

definition is_slug_alnum :: "char \<Rightarrow> bool" where
  \<comment> \<open>the class \<open>[a-z0-9]\<close>\<close>
  "is_slug_alnum c \<longleftrightarrow>
     (let n = of_char c :: nat in (97 \<le> n \<and> n \<le> 122) \<or> (48 \<le> n \<and> n \<le> 57))"

definition is_hyphen :: "char \<Rightarrow> bool" where
  "is_hyphen c \<longleftrightarrow> c = CHR ''-''"

definition is_digit :: "char \<Rightarrow> bool" where
  "is_digit c \<longleftrightarrow> (let n = of_char c :: nat in 48 \<le> n \<and> n \<le> 57)"

definition is_upper :: "char \<Rightarrow> bool" where
  \<comment> \<open>the code units below 256 that \<open>toLowerCase\<close> changes: A-Z, and U+00C0-U+00DE but U+00D7\<close>
  "is_upper c \<longleftrightarrow>
     (let n = of_char c :: nat
      in (65 \<le> n \<and> n \<le> 90) \<or> (192 \<le> n \<and> n \<le> 222 \<and> n \<noteq> 215))"

definition toLowerChar :: "char \<Rightarrow> char" where
  \<comment> \<open>the lower-case letter is 32 above the upper-case one; bit 5 (value 32) is clear in
      both upper-case ranges, so adding 32 is setting that bit\<close>
  "toLowerChar c =
     (if is_upper c
      then (case c of Char b0 b1 b2 b3 b4 b5 b6 b7 \<Rightarrow> Char b0 b1 b2 b3 b4 True b6 b7)
      else c)"

definition toLowerCase :: "string \<Rightarrow> string" where
  "toLowerCase s = map toLowerChar s"

definition trim :: "string \<Rightarrow> string" where
  "trim s = rev (dropWhile is_space (rev (dropWhile is_space s)))"

definition startsWith :: "string \<Rightarrow> string \<Rightarrow> bool" where
  "startsWith s p \<longleftrightarrow> take (length p) s = p"

text \<open>
  \<open>s.replace(/P+/g, r)\<close> for a character class \<open>P\<close>: every maximal run of characters of
  the class is replaced by \<open>r\<close>.
\<close>

function replace_runs :: "(char \<Rightarrow> bool) \<Rightarrow> string \<Rightarrow> string \<Rightarrow> string" where
  "replace_runs P r [] = []"
| "replace_runs P r (c # cs) =
     (if P c then r @ replace_runs P r (dropWhile P cs) else c # replace_runs P r cs)"
  by pat_completeness auto
termination
  by (relation "measure (\<lambda>(P, r, s). length s)")
     (auto simp add: le_imp_less_Suc length_dropWhile_le)

section \<open>The slug normalizer\<close>

definition strip_disallowed :: "string \<Rightarrow> string" where
  \<comment> \<open>\<open>.replace(/[^a-z0-9\s-]/g, '')\<close>\<close>
  "strip_disallowed s = filter (\<lambda>c. is_slug_alnum c \<or> is_space c \<or> is_hyphen c) s"

definition strip_edge_hyphens :: "string \<Rightarrow> string" where
  \<comment> \<open>\<open>.replace(/^-|-$/g, '')\<close>: a hyphen at the start is removed, and then a hyphen at the
      end of what is left (the matches do not overlap, so \<open>-\<close> alone loses its one hyphen)\<close>
  "strip_edge_hyphens s =
     (let r = (case s of [] \<Rightarrow> [] | c # cs \<Rightarrow> if is_hyphen c then cs else s)
      in if r \<noteq> [] \<and> is_hyphen (last r) then butlast r else r)"

definition sanitizeSlug :: "string \<Rightarrow> string" where
  "sanitizeSlug v =
     strip_edge_hyphens
       (replace_runs is_hyphen ''-''
         (replace_runs is_space ''-''
           (strip_disallowed (trim (toLowerCase v)))))"

text \<open>
  The slug rule of the payload schema, \<open>/^[a-z0-9]+(?:-[a-z0-9]+)*$/\<close>, as the automaton
  that reads it: the flag says whether the segment being read has a character already.
\<close>

fun slug_match :: "bool \<Rightarrow> string \<Rightarrow> bool" where
  "slug_match inseg [] = inseg"
| "slug_match inseg (c # cs) =
     (if is_slug_alnum c then slug_match True cs
      else is_hyphen c \<and> inseg \<and> slug_match False cs)"

definition slug_regex :: "string \<Rightarrow> bool" where
  "slug_regex s = slug_match False s"

section \<open>JSON values\<close>

text \<open>
  What \<open>express.json()\<close> and the query parser hand to the routes. A number is kept as the
  text \<open>String()\<close> gives for it, which is all the routes ever ask of a number (JSON has no
  NaN and no infinities, and both zeros give \<open>0\<close>). A request body is an object: a
  finite map from keys to values, where a key that is absent reads as \<open>undefined\<close>.

  \<open>String(v)\<close> can throw. An object is converted by its \<open>toString\<close> method, and an object
  that has a key \<open>toString\<close> of its own hides the inherited method behind a value that
  cannot be called (no value of JSON can); the inherited \<open>valueOf\<close> returns the object
  itself, and the conversion ends in a TypeError. An array is converted by joining the
  conversions of its elements, so it throws when one of them does. \<open>None\<close> is that
  exception.
\<close>

datatype json =
    JNull
  | JBool bool
  | JNum string
  | JStr string
  | JArr "json list"
  | JObj "(string \<times> json) list"

type_synonym body = "string \<rightharpoonup> json"

fun js_String :: "json \<Rightarrow> string option" and join_elems :: "json list \<Rightarrow> string option" where
  "js_String JNull = Some ''null''"
| "js_String (JBool b) = Some (if b then ''true'' else ''false'')"
| "js_String (JNum t) = Some t"
| "js_String (JStr s) = Some s"
| "js_String (JArr vs) = join_elems vs"
| "js_String (JObj kvs) =
     (if ''toString'' \<in> set (map fst kvs) then None else Some ''[object Object]'')"
| "join_elems [] = Some []"
| "join_elems (v # vs) =
     (case (if v = JNull then Some [] else js_String v) of
        None \<Rightarrow> None
      | Some s \<Rightarrow>
          if vs = [] then Some s
          else (case join_elems vs of None \<Rightarrow> None | Some r \<Rightarrow> Some (s @ '','' @ r)))"

text \<open>
  What the handlers can tell of an exception: its kind and its \<open>code\<close> property, which is
  absent, a number or a string.
\<close>

datatype error_code = NoCode | NumberCode int | StringCode string

datatype js_error =
    TypeError
  | ValidationError
  | StoreError error_code

fun truthy :: "json option \<Rightarrow> bool" where
  "truthy None = False"
| "truthy (Some JNull) = False"
| "truthy (Some (JBool b)) = b"
| "truthy (Some (JNum t)) = (t \<noteq> ''0'')"
| "truthy (Some (JStr s)) = (s \<noteq> [])"
| "truthy (Some (JArr vs)) = True"
| "truthy (Some (JObj kvs)) = True"

fun coalesce :: "json option \<Rightarrow> json \<Rightarrow> json" where
  \<comment> \<open>\<open>a ?? b\<close>\<close>
  "coalesce None b = b"
| "coalesce (Some JNull) b = b"
| "coalesce (Some v) b = v"

section \<open>The summary of a post\<close>

definition is_md_punct :: "char \<Rightarrow> bool" where
  \<comment> \<open>the class \<open>[#>*_`\-]\<close> (U+0060 is the backtick)\<close>
  "is_md_punct c \<longleftrightarrow>
     c \<in> {CHR ''#'', CHR ''>'', CHR ''*'', CHR ''_'', CHR 0x60, CHR ''-''}"

text \<open>
  The second alternative of the pattern of \<open>summarize\<close>, \<open>\[(.*?)\]\((.*?)\)\<close>, tried
  where the text has an opening bracket. Both groups are lazy and \<open>.\<close> does not cross a
  line terminator, so the match ends at the first closing parenthesis that follows the
  first \<open>](\<close> of the line. When no closing parenthesis follows that first \<open>](\<close> on the
  line, none follows a later one either, and the pattern does not match.
\<close>

fun after_text :: "string \<Rightarrow> string option" where
  "after_text [] = None"
| "after_text [c] = None"
| "after_text (c # d # cs) =
     (if is_line_terminator c then None
      else if c = CHR '']'' \<and> d = CHR ''('' then Some cs
      else after_text (d # cs))"

fun after_url :: "string \<Rightarrow> string option" where
  "after_url [] = None"
| "after_url (c # cs) =
     (if c = CHR '')'' then Some cs
      else if is_line_terminator c then None
      else after_url cs)"

definition link_rest :: "string \<Rightarrow> string option" where
  "link_rest cs = (case after_text cs of None \<Rightarrow> None | Some r \<Rightarrow> after_url r)"

lemma after_text_shorter: "after_text cs = Some r \<Longrightarrow> length r < length cs"
  by (induction cs arbitrary: r rule: after_text.induct) (auto split: if_splits)

lemma after_url_shorter: "after_url cs = Some r \<Longrightarrow> length r < length cs"
  by (induction cs arbitrary: r rule: after_url.induct) (auto split: if_splits)

lemma link_rest_shorter: "link_rest cs = Some r \<Longrightarrow> length r < length cs"
  by (auto simp add: link_rest_def split: option.splits
      dest!: after_text_shorter after_url_shorter)

text \<open>
  \<open>.replace(/[#>*_`\-]|\[(.*?)\]\((.*?)\)/g, '')\<close>: the text is read from the left; a
  character of the class is dropped, a link is dropped whole, anything else is kept.
\<close>

function strip_markdown :: "string \<Rightarrow> string" where
  "strip_markdown [] = []"
| "strip_markdown (c # cs) =
     (if is_md_punct c then strip_markdown cs
      else if c = CHR ''[''
        then (case link_rest cs of
                Some r \<Rightarrow> strip_markdown r
              | None \<Rightarrow> c # strip_markdown cs)
      else c # strip_markdown cs)"
  by pat_completeness auto
termination
  by (relation "measure length") (auto dest: link_rest_shorter)

definition summarize :: "string \<Rightarrow> string \<Rightarrow> string" where
  "summarize content fallback =
     (if content = [] then fallback
      else
        let plain = trim (replace_runs is_space '' '' (strip_markdown content));
            snippet = take 180 plain
        in snippet @ (if 180 < length plain then ''...'' else []))"

section \<open>Configuration\<close>

text \<open>
  The environment is a map from variable names to their values; \<open>process.env.X || d\<close> falls
  back when the variable is unset or empty. A process that lacks a required variable
  exits before it serves a request: it has no configuration.
\<close>

type_synonym env = "string \<rightharpoonup> string"

record config =
  ADMIN_SECRET_KEY :: string
  AUTH_TOKEN_SECRET :: string
  TOKEN_EXPIRY :: string
  MONGODB_URI :: string

definition or_default :: "string option \<Rightarrow> string \<Rightarrow> string" where
  "or_default v d = (case v of None \<Rightarrow> d | Some s \<Rightarrow> if s = [] then d else s)"

definition load_config :: "env \<Rightarrow> config option" where
  "load_config e =
     (let admin = or_default (e ''ADMIN_SECRET_KEY'') [];
          secret = or_default (e ''AUTH_TOKEN_SECRET'') admin;
          expiry = or_default (e ''TOKEN_EXPIRY'') ''30m'';
          uri = or_default (e ''MONGODB_URI'') []
      in if admin = [] then None
         else if secret = [] then None
         else if uri = [] then None
         else Some \<lparr>ADMIN_SECRET_KEY = admin, AUTH_TOKEN_SECRET = secret,
                    TOKEN_EXPIRY = expiry, MONGODB_URI = uri\<rparr>)"

section \<open>Tokens\<close>

record payload =
  scope :: "string list"
  issuedAt :: nat

definition buildTokenPayload :: "nat \<Rightarrow> payload" where
  \<comment> \<open>the argument is the reading of \<open>Date.now()\<close>, in milliseconds\<close>
  "buildTokenPayload now = \<lparr>scope = [''blog:create''], issuedAt = now\<rparr>"

subsection \<open>Decimal numerals\<close>

definition digit_char :: "nat \<Rightarrow> char" where
  "digit_char d = char_of (48 + d)"

definition digit_val :: "char \<Rightarrow> nat" where
  "digit_val c = of_char c - 48"

fun show_nat :: "nat \<Rightarrow> string" where
  "show_nat n =
     (if n < 10 then [digit_char n] else show_nat (n div 10) @ [digit_char (n mod 10)])"

declare show_nat.simps [simp del]

definition read_digits :: "string \<Rightarrow> nat" where
  "read_digits ds = foldl (\<lambda>a c. 10 * a + digit_val c) 0 ds"

subsection \<open>The token library\<close>

text \<open>
  Modelled from the spec: the functions \<open>sign\<close> and \<open>verify\<close> of the \<open>jsonwebtoken\<close>
  package, which the repository calls and does not contain. The spec's data model says
  what they must do: a token is valid iff its signature verifies against the signing
  secret and the current time is before issuance plus expiry, all three in milliseconds
  as the data model has them; \<open>verify\<close> returns the decoded claims, the scope and
  \<open>issuedAt\<close>. The signature is symbolic: a token carries the key that signed it and
  verification compares keys, so nothing here speaks about HMAC. The text of a token is a
  serialization of its claims and of the instant from which it is expired (issuance plus
  expiry), followed by that key and a full stop.

  The duration a string such as \<open>30m\<close> denotes is computed by the package \<open>ms\<close>; it is the
  parameter \<open>ms\<close> below, in milliseconds, \<open>None\<close> where the string denotes none.
\<close>

datatype jwt_error = JsonWebTokenError | TokenExpiredError

definition enc_nat :: "nat \<Rightarrow> string" where
  "enc_nat n = show_nat n @ '';''"

definition enc_int :: "int \<Rightarrow> string" where
  "enc_int i = (if i < 0 then ''-'' else ''+'') @ show_nat (nat \<bar>i\<bar>) @ '';''"

definition enc_str :: "string \<Rightarrow> string" where
  "enc_str s = show_nat (length s) @ '':'' @ s"

definition enc_list :: "string list \<Rightarrow> string" where
  "enc_list xs = show_nat (length xs) @ ''['' @ concat (map enc_str xs)"

definition dec_nat :: "char \<Rightarrow> string \<Rightarrow> (nat \<times> string) option" where
  \<comment> \<open>a numeral and the character that ends it\<close>
  "dec_nat e s =
     (let ds = takeWhile is_digit s
      in if ds = [] then None
         else (case dropWhile is_digit s of
                 [] \<Rightarrow> None
               | c # r \<Rightarrow> if c = e then Some (read_digits ds, r) else None))"

definition dec_int :: "string \<Rightarrow> (int \<times> string) option" where
  "dec_int s =
     (case s of
        [] \<Rightarrow> None
      | c # r \<Rightarrow>
          if c = CHR ''+'' then map_option (\<lambda>(n, r'). (int n, r')) (dec_nat CHR '';'' r)
          else if c = CHR ''-'' then map_option (\<lambda>(n, r'). (- int n, r')) (dec_nat CHR '';'' r)
          else None)"

definition dec_str :: "string \<Rightarrow> (string \<times> string) option" where
  "dec_str s =
     (case dec_nat CHR '':'' s of
        None \<Rightarrow> None
      | Some (n, r) \<Rightarrow> if n \<le> length r then Some (take n r, drop n r) else None)"

fun dec_strs :: "nat \<Rightarrow> string \<Rightarrow> (string list \<times> string) option" where
  "dec_strs 0 s = Some ([], s)"
| "dec_strs (Suc n) s =
     (case dec_str s of
        None \<Rightarrow> None
      | Some (x, r) \<Rightarrow> map_option (\<lambda>(xs, r'). (x # xs, r')) (dec_strs n r))"

definition dec_list :: "string \<Rightarrow> (string list \<times> string) option" where
  "dec_list s = (case dec_nat CHR ''['' s of None \<Rightarrow> None | Some (n, r) \<Rightarrow> dec_strs n r)"

definition jwt_encode :: "payload \<Rightarrow> int \<Rightarrow> string \<Rightarrow> string" where
  \<comment> \<open>the token of the claims \<open>p\<close>, expired from the instant \<open>expires\<close> on, signed with \<open>key\<close>\<close>
  "jwt_encode p expires key =
     enc_list (scope p) @ enc_nat (issuedAt p) @ enc_int expires @ key @ ''.''"

definition jwt_decode :: "string \<Rightarrow> (payload \<times> int \<times> string) option" where
  "jwt_decode s =
     (case dec_list s of None \<Rightarrow> None | Some (sc, r1) \<Rightarrow>
       (case dec_nat CHR '';'' r1 of None \<Rightarrow> None | Some (ia, r2) \<Rightarrow>
         (case dec_int r2 of None \<Rightarrow> None | Some (expires, r3) \<Rightarrow>
            if r3 \<noteq> [] \<and> last r3 = CHR ''.''
              then Some (\<lparr>scope = sc, issuedAt = ia\<rparr>, expires, butlast r3)
            else None)))"

definition jwt_sign ::
  "(string \<Rightarrow> int option) \<Rightarrow> payload \<Rightarrow> string \<Rightarrow> string \<Rightarrow> nat \<Rightarrow> string option" where
  \<comment> \<open>\<open>jwt.sign(payload, secret, { expiresIn })\<close> at the clock reading \<open>now\<close>; \<open>None\<close> is the
      exception the package throws for an empty secret or a duration it cannot read\<close>
  "jwt_sign ms p secret expiresIn now =
     (if secret = [] then None
      else case ms expiresIn of
        None \<Rightarrow> None
      | Some m \<Rightarrow> Some (jwt_encode p (int now + m) secret))"

definition jwt_verify :: "json \<Rightarrow> string \<Rightarrow> nat \<Rightarrow> jwt_error + payload" where
  \<comment> \<open>\<open>jwt.verify(token, secret)\<close> at the clock reading \<open>now\<close>; \<open>Inl\<close> is the exception. The
      token is valid while \<open>now\<close> is before issuance plus expiry.\<close>
  "jwt_verify token secret now =
     (case token of
        JStr s \<Rightarrow>
          (case jwt_decode s of
             None \<Rightarrow> Inl JsonWebTokenError
           | Some (p, expires, key) \<Rightarrow>
               if key \<noteq> secret then Inl JsonWebTokenError
               else if int now < expires then Inr p
               else Inl TokenExpiredError)
      | _ \<Rightarrow> Inl JsonWebTokenError)"

section \<open>The payload schema\<close>

text \<open>
  \<open>blogPayloadSchema\<close>, read as \<open>safeParse\<close> reads it: every field is checked, every check
  of a string runs (a failed check does not stop the later ones), the issues of all fields
  are collected with the name of their field, and keys the schema does not know are
  dropped. Whether a string is a URL is decided by the platform's URL parser: the
  parameter \<open>is_url\<close>.
\<close>

datatype issue_code = invalid_type | too_small | too_big | invalid_string | invalid_union

type_synonym issue = "string \<times> issue_code"

type_synonym check = "(string \<Rightarrow> bool) \<times> issue_code"

definition z_min :: "nat \<Rightarrow> check" where
  "z_min n = (\<lambda>s. n \<le> length s, too_small)"

definition z_max :: "nat \<Rightarrow> check" where
  "z_max n = (\<lambda>s. length s \<le> n, too_big)"

definition z_regex :: "(string \<Rightarrow> bool) \<Rightarrow> check" where
  "z_regex P = (P, invalid_string)"

definition z_url :: "(string \<Rightarrow> bool) \<Rightarrow> check" where
  "z_url is_url = (is_url, invalid_string)"

definition failed_checks :: "check list \<Rightarrow> string \<Rightarrow> issue_code list" where
  "failed_checks cs s = map snd (filter (\<lambda>c. \<not> fst c s) cs)"

definition z_string :: "check list \<Rightarrow> json option \<Rightarrow> issue_code list + string" where
  "z_string cs v =
     (case v of
        Some (JStr s) \<Rightarrow> if failed_checks cs s = [] then Inr s else Inl (failed_checks cs s)
      | _ \<Rightarrow> Inl [invalid_type])"

definition z_optional ::
  "(json option \<Rightarrow> issue_code list + string) \<Rightarrow> json option \<Rightarrow> issue_code list + string option"
  where
  "z_optional f v =
     (case v of
        None \<Rightarrow> Inr None
      | Some x \<Rightarrow> (case f v of Inl is \<Rightarrow> Inl is | Inr s \<Rightarrow> Inr (Some s)))"

definition z_default ::
  "string \<Rightarrow> (json option \<Rightarrow> issue_code list + string) \<Rightarrow> json option \<Rightarrow> issue_code list + string"
  where
  "z_default d f v = (case v of None \<Rightarrow> Inr d | Some x \<Rightarrow> f v)"

definition z_image :: "(string \<Rightarrow> bool) \<Rightarrow> json option \<Rightarrow> issue_code list + string option" where
  \<comment> \<open>\<open>z.string().url().optional().or(z.literal(''))\<close>: the first option that accepts the
      value wins; when none does, a string keeps the issue of its failed URL check and any
      other value is an invalid union\<close>
  "z_image is_url v =
     (case z_optional (z_string [z_url is_url]) v of
        Inr r \<Rightarrow> Inr r
      | Inl is \<Rightarrow>
          if v = Some (JStr []) then Inr (Some [])
          else (case v of Some (JStr s) \<Rightarrow> Inl is | _ \<Rightarrow> Inl [invalid_union]))"

record data =
  in_title :: string
  in_slug :: string
  in_author :: string
  in_date :: "string option"
  in_excerpt :: "string option"
  in_image :: "string option"
  in_content :: string

definition slug_rule :: "json option \<Rightarrow> issue_code list + string" where
  \<comment> \<open>the \<open>slug\<close> field of the schema: \<open>min(3)\<close>, \<open>max(160)\<close> and the character-class pattern\<close>
  "slug_rule = z_string [z_min 3, z_max 160, z_regex slug_regex]"

definition tag :: "string \<Rightarrow> issue_code list + 'a \<Rightarrow> issue list" where
  "tag field r = (case r of Inl cs \<Rightarrow> map (Pair field) cs | Inr x \<Rightarrow> [])"

definition blogPayloadSchema :: "(string \<Rightarrow> bool) \<Rightarrow> body \<Rightarrow> issue list + data" where
  "blogPayloadSchema is_url p =
     (let title = z_string [z_min 3, z_max 160] (p ''title'');
          slug = slug_rule (p ''slug'');
          author = z_default [] (z_string [z_max 120]) (p ''author'');
          date = z_optional (z_string [z_max 40]) (p ''date'');
          excerpt = z_optional (z_string [z_max 320]) (p ''excerpt'');
          image = z_image is_url (p ''image'');
          content = z_string [z_min 20] (p ''content'')
      in case (title, slug, author, date, excerpt, image, content) of
           (Inr t, Inr s, Inr a, Inr d, Inr e, Inr i, Inr c) \<Rightarrow>
             Inr \<lparr>in_title = t, in_slug = s, in_author = a, in_date = d,
                  in_excerpt = e, in_image = i, in_content = c\<rparr>
         | _ \<Rightarrow>
             Inl (tag ''title'' title @ tag ''slug'' slug @ tag ''author'' author @
                  tag ''date'' date @ tag ''excerpt'' excerpt @ tag ''image'' image @
                  tag ''content'' content))"

section \<open>The content store\<close>

text \<open>
  Modelled from the spec: the document store behind the \<open>BlogPost\<close> model (mongoose and
  MongoDB, which the repository calls and does not contain), as the spec's abstract
  repository: an insert that fails distinctly on a duplicate slug, and a find that sorts
  and limits. The fields, their \<open>trim\<close> setters, the required fields, the unique index on
  the slug and the timestamps are those \<open>blogPostSchema\<close> declares.

  The store can fail for reasons of its own (out of reach, out of space, a refused write):
  \<open>failing\<close> is the exception its operations then reject with, whatever that exception is
  and whatever code it carries; \<open>None\<close> is a store that works.
\<close>

record document =
  slug :: string
  title :: string
  author :: string
  excerpt :: string
  image :: string
  content :: string
  publishedAt :: "int option"

record post = document +
  createdAt :: int
  updatedAt :: int

datatype event = ConsoleError string | Save document

record world =
  posts :: "post list"
  failing :: "js_error option"
  trace :: "event list"

definition console_error :: "string \<Rightarrow> world \<Rightarrow> world" where
  "console_error label w = w\<lparr>trace := trace w @ [ConsoleError label]\<rparr>"

definition BlogPost :: "document \<Rightarrow> document" where
  \<comment> \<open>\<open>new BlogPost({...})\<close>: the setters of the schema trim every field but the content\<close>
  "BlogPost d =
     d\<lparr>slug := trim (slug d), title := trim (title d), author := trim (author d),
        excerpt := trim (excerpt d), image := trim (image d)\<rparr>"

definition save :: "nat \<Rightarrow> document \<Rightarrow> world \<Rightarrow> js_error option \<times> world" where
  \<comment> \<open>\<open>document.save()\<close> at the clock reading \<open>now\<close>; the error is the exception it rejects
      with: a validation error when a required field is empty, the exception of a failing
      store, the duplicate-key error (code 11000) when the slug is taken. The call is
      recorded in the trace whatever its outcome.\<close>
  "save now d w =
     (let w1 = w\<lparr>trace := trace w @ [Save d]\<rparr>
      in if slug d = [] \<or> title d = [] \<or> content d = [] then (Some ValidationError, w1)
         else case failing w of
           Some error \<Rightarrow> (Some error, w1)
         | None \<Rightarrow>
         if slug d \<in> set (map slug (posts w)) then (Some (StoreError (NumberCode 11000)), w1)
         else (None, w1\<lparr>posts := posts w @
                 [\<lparr>slug = slug d, title = title d, author = author d, excerpt = excerpt d,
                   image = image d, content = content d, publishedAt = publishedAt d,
                   createdAt = int now, updatedAt = int now\<rparr>]\<rparr>))"

text \<open>
  The sort of the list route is by \<open>publishedAt\<close>, later first, then by \<open>createdAt\<close>, later
  first. Where the store ranks a post that has no \<open>publishedAt\<close> is left open: \<open>undated\<close>,
  a parameter, is the date under which it ranks such a post (its creation time, in the
  spec's data model).
\<close>

definition rank :: "(post \<Rightarrow> int) \<Rightarrow> post \<Rightarrow> int" where
  "rank undated a = (case publishedAt a of Some t \<Rightarrow> t | None \<Rightarrow> undated a)"

definition precedes :: "(post \<Rightarrow> int) \<Rightarrow> post \<Rightarrow> post \<Rightarrow> bool" where
  \<comment> \<open>\<open>a\<close> may stand before \<open>b\<close> under \<open>.sort({ publishedAt: -1, createdAt: -1 })\<close>\<close>
  "precedes undated a b \<longleftrightarrow>
     rank undated b < rank undated a \<or>
     (rank undated a = rank undated b \<and> createdAt b \<le> createdAt a)"

fun insert_post :: "(post \<Rightarrow> int) \<Rightarrow> post \<Rightarrow> post list \<Rightarrow> post list" where
  "insert_post undated x [] = [x]"
| "insert_post undated x (y # ys) =
     (if precedes undated x y then x # y # ys else y # insert_post undated x ys)"

definition sort_posts :: "(post \<Rightarrow> int) \<Rightarrow> post list \<Rightarrow> post list" where
  "sort_posts undated xs = foldr (insert_post undated) xs []"

definition find_posts :: "(post \<Rightarrow> int) \<Rightarrow> nat \<Rightarrow> world \<Rightarrow> js_error + post list" where
  \<comment> \<open>\<open>BlogPost.find({}).sort({ publishedAt: -1, createdAt: -1 }).limit(n).lean().exec()\<close>;
      a limit of 0 is no limit; \<open>Inl\<close> is the exception of a failing store\<close>
  "find_posts undated n w =
     (case failing w of
        Some error \<Rightarrow> Inl error
      | None \<Rightarrow>
          Inr (if n = 0 then sort_posts undated (posts w)
               else take n (sort_posts undated (posts w))))"

section \<open>The public form of a post\<close>

record public_post =
  out_slug :: string
  out_title :: string
  out_author :: string
  out_excerpt :: string
  out_image :: "string option"
  out_content :: string
  out_date :: string

definition formatDisplayDate :: "(int \<Rightarrow> string) \<Rightarrow> int option \<Rightarrow> string" where
  \<comment> \<open>the parameter is \<open>toLocaleDateString('en-US', ...)\<close> on a valid date, given by its time
      value; the dates of the store are valid\<close>
  "formatDisplayDate toLocaleDateString v =
     (case v of None \<Rightarrow> [] | Some t \<Rightarrow> toLocaleDateString t)"

definition toBlogResponse :: "(int \<Rightarrow> string) \<Rightarrow> post \<Rightarrow> public_post" where
  "toBlogResponse toLocaleDateString d =
     (let published = (case publishedAt d of Some t \<Rightarrow> Some t | None \<Rightarrow> Some (createdAt d))
      in \<lparr>out_slug = slug d,
          out_title = title d,
          out_author = (if author d = [] then ''Perceptron Team'' else author d),
          out_excerpt = (if excerpt d = [] then summarize (content d) [] else excerpt d),
          out_image = (if image d = [] then None else Some (image d)),
          out_content = content d,
          out_date = formatDisplayDate toLocaleDateString published\<rparr>)"

section \<open>Responses\<close>

datatype reply =
    Error string
  | Token string string
  | Valid payload
  | NotValid string
  | Posts "public_post list"
  | Created string
  | InvalidPayload string "issue list"
  | Unhandled

record response =
  status :: nat
  sent :: reply

section \<open>The authentication routes\<close>

definition auth_login ::
  "(string \<Rightarrow> int option) \<Rightarrow> config \<Rightarrow> nat \<Rightarrow> body \<Rightarrow> response" where
  \<comment> \<open>\<open>POST /auth/login\<close>. An exception of \<open>jwt.sign\<close> is not caught by the route: the
      framework answers 500.\<close>
  "auth_login ms cfg now b =
     (let secretKey = b ''secretKey''
      in if \<not> truthy secretKey
           then \<lparr>status = 400, sent = Error ''Secret key is required.''\<rparr>
         else if secretKey \<noteq> Some (JStr (ADMIN_SECRET_KEY cfg))
           then \<lparr>status = 401, sent = Error ''Invalid credentials.''\<rparr>
         else (case jwt_sign ms (buildTokenPayload now) (AUTH_TOKEN_SECRET cfg)
                      (TOKEN_EXPIRY cfg) now of
                 None \<Rightarrow> \<lparr>status = 500, sent = Unhandled\<rparr>
               | Some token \<Rightarrow> \<lparr>status = 200, sent = Token token (TOKEN_EXPIRY cfg)\<rparr>))"

definition auth_verify :: "config \<Rightarrow> nat \<Rightarrow> body \<Rightarrow> response" where
  \<comment> \<open>\<open>POST /auth/verify\<close>\<close>
  "auth_verify cfg now b =
     (case b ''token'' of
        None \<Rightarrow> \<lparr>status = 400, sent = Error ''Token is required.''\<rparr>
      | Some token \<Rightarrow>
          if \<not> truthy (Some token)
            then \<lparr>status = 400, sent = Error ''Token is required.''\<rparr>
          else (case jwt_verify token (AUTH_TOKEN_SECRET cfg) now of
                  Inr decoded \<Rightarrow> \<lparr>status = 200, sent = Valid decoded\<rparr>
                | Inl error \<Rightarrow> \<lparr>status = 401, sent = NotValid ''Invalid or expired token.''\<rparr>))"

definition verifyToken ::
  "config \<Rightarrow> nat \<Rightarrow> string option \<Rightarrow> world \<Rightarrow> response option \<times> world" where
  \<comment> \<open>the middleware of the protected route; the argument is \<open>request.headers.authorization\<close>.
      No response means \<open>next()\<close>: the wrapped operation runs.\<close>
  "verifyToken cfg now authorization w =
     (case authorization of
        None \<Rightarrow> (Some \<lparr>status = 401, sent = Error ''Missing authorization header.''\<rparr>, w)
      | Some a \<Rightarrow>
          if a = [] \<or> \<not> startsWith a ''Bearer ''
            then (Some \<lparr>status = 401, sent = Error ''Missing authorization header.''\<rparr>, w)
          else
            let token = trim (drop (length ''Bearer '') a)
            in (case jwt_verify (JStr token) (AUTH_TOKEN_SECRET cfg) now of
                  Inr decoded \<Rightarrow> (None, w)
                | Inl error \<Rightarrow>
                    (Some \<lparr>status = 401, sent = Error ''Invalid or expired token.''\<rparr>,
                     console_error ''Invalid token'' w)))"

section \<open>The blog routes\<close>

subsection \<open>Listing\<close>

definition parseInt10 :: "string \<Rightarrow> int option" where
  \<comment> \<open>\<open>Number.parseInt(text, 10)\<close> as a mathematical integer: leading white space, a sign,
      then the longest run of digits; \<open>None\<close> is NaN\<close>
  "parseInt10 s =
     (let t = dropWhile is_space s;
          signed = (t \<noteq> [] \<and> (hd t = CHR ''-'' \<or> hd t = CHR ''+''));
          ds = takeWhile is_digit (if signed then tl t else t)
      in if ds = [] then None
         else Some ((if signed \<and> hd t = CHR ''-'' then - 1 else 1) * int (read_digits ds)))"

definition Number_isFinite :: "int \<Rightarrow> bool" where
  \<comment> \<open>whether the number value of the integer is finite: rounding to the nearest double
      gives an infinity from \<open>2^1024 - 2^970\<close> on\<close>
  "Number_isFinite n \<longleftrightarrow> \<bar>n\<bar> < 2 ^ 1024 - 2 ^ 970"

definition limit_text :: "json option \<Rightarrow> string option" where
  \<comment> \<open>the text \<open>parseInt\<close> reads: \<open>String\<close> of its argument \<open>req.query.limit\<close>, which is
      \<open>undefined\<close> when the query has no limit\<close>
  "limit_text limit = (case limit of None \<Rightarrow> Some ''undefined'' | Some v \<Rightarrow> js_String v)"

definition safeLimit :: "int option \<Rightarrow> nat option" where
  \<comment> \<open>the argument is \<open>parsedLimit\<close>; the result \<open>None\<close> is \<open>undefined\<close>\<close>
  "safeLimit parsedLimit =
     (case parsedLimit of
        None \<Rightarrow> None
      | Some n \<Rightarrow> if Number_isFinite n \<and> 0 < n then Some (nat (min n 100)) else None)"

definition list_failed :: "js_error \<Rightarrow> world \<Rightarrow> response \<times> world" where
  \<comment> \<open>the \<open>catch\<close> block of the list handler\<close>
  "list_failed error w =
     (\<lparr>status = 500, sent = Error ''Failed to fetch blog posts.''\<rparr>,
      console_error ''Failed to list blog posts'' w)"

definition get_blogs ::
  "(post \<Rightarrow> int) \<Rightarrow> (int \<Rightarrow> string) \<Rightarrow> json option \<Rightarrow> world \<Rightarrow> response \<times> world" where
  \<comment> \<open>\<open>GET /blogs\<close>; the whole handler is one \<open>try\<close> block\<close>
  "get_blogs undated toLocaleDateString limit w =
     (case limit_text limit of
        None \<Rightarrow> list_failed TypeError w
      | Some text \<Rightarrow>
          (case find_posts undated
                  (case safeLimit (parseInt10 text) of None \<Rightarrow> 0 | Some n \<Rightarrow> n) w of
             Inr found \<Rightarrow>
               (\<lparr>status = 200, sent = Posts (map (toBlogResponse toLocaleDateString) found)\<rparr>, w)
           | Inl error \<Rightarrow> list_failed error w))"

subsection \<open>Creating\<close>

definition published_at :: "(string \<Rightarrow> int option) \<Rightarrow> string option \<Rightarrow> int option" where
  \<comment> \<open>the parameter is \<open>Date.parse\<close>: the time value of a string in milliseconds, \<open>None\<close> where
      the date is invalid. \<open>setUTCHours(0, 0, 0, 0)\<close> goes back to the start of the UTC day.\<close>
  "published_at Date_parse date =
     (case date of
        None \<Rightarrow> None
      | Some s \<Rightarrow>
          if s = [] then None
          else (case Date_parse s of
                  None \<Rightarrow> None
                | Some t \<Rightarrow> Some (t - t mod 86400000)))"

definition new_document :: "(string \<Rightarrow> int option) \<Rightarrow> data \<Rightarrow> document" where
  "new_document Date_parse d =
     BlogPost
       \<lparr>slug = in_slug d,
        title = trim (in_title d),
        author = (if trim (in_author d) = [] then ''Perceptron Team'' else trim (in_author d)),
        excerpt = (case in_excerpt d of None \<Rightarrow> [] | Some e \<Rightarrow> trim e),
        image = (case in_image d of None \<Rightarrow> [] | Some i \<Rightarrow> trim i),
        content = trim (in_content d),
        publishedAt = published_at Date_parse (in_date d)\<rparr>"

definition slug_candidate :: "body \<Rightarrow> string option" where
  \<comment> \<open>\<open>String(req.body?.slug ?? req.body?.title ?? '')\<close>; \<open>None\<close> when \<open>String\<close> throws\<close>
  "slug_candidate b = js_String (coalesce (b ''slug'') (coalesce (b ''title'') (JStr [])))"

fun code_11000 :: "js_error \<Rightarrow> bool" where
  \<comment> \<open>\<open>error && typeof error === 'object' && 'code' in error && error.code === 11000\<close>\<close>
  "code_11000 (StoreError (NumberCode c)) = (c = 11000)"
| "code_11000 error = False"

definition create_failed :: "js_error \<Rightarrow> world \<Rightarrow> response \<times> world" where
  \<comment> \<open>the \<open>catch\<close> block of the create handler\<close>
  "create_failed error w =
     (if code_11000 error
        then (\<lparr>status = 409, sent = Error ''A blog post with this slug already exists.''\<rparr>, w)
      else (\<lparr>status = 500, sent = Error ''Failed to store the blog post.''\<rparr>,
            console_error ''Failed to persist blog post'' w))"

definition create_post ::
  "(string \<Rightarrow> bool) \<Rightarrow> (string \<Rightarrow> int option) \<Rightarrow> nat \<Rightarrow> body \<Rightarrow> world \<Rightarrow> response \<times> world"
  where
  \<comment> \<open>the handler of \<open>POST /blogs\<close>, behind the middleware; the whole handler is one \<open>try\<close>
      block, so an exception of \<open>String\<close> ends in the \<open>catch\<close> block as one of \<open>save\<close> does\<close>
  "create_post is_url Date_parse now b w =
     (case slug_candidate b of
        None \<Rightarrow> create_failed TypeError w
      | Some candidate \<Rightarrow>
          (let normalizedSlug = sanitizeSlug candidate;
               payload = b(''slug'' \<mapsto> JStr normalizedSlug)
           in (case blogPayloadSchema is_url payload of
                 Inl issues \<Rightarrow>
                   (\<lparr>status = 400, sent = InvalidPayload ''Invalid blog payload.'' issues\<rparr>, w)
               | Inr d \<Rightarrow>
                   (let document = new_document Date_parse d
                    in (case save now document w of
                          (None, w1) \<Rightarrow> (\<lparr>status = 201, sent = Created (slug document)\<rparr>, w1)
                        | (Some error, w1) \<Rightarrow> create_failed error w1)))))"

definition post_blogs ::
  "(string \<Rightarrow> bool) \<Rightarrow> (string \<Rightarrow> int option) \<Rightarrow> config \<Rightarrow> nat \<Rightarrow> string option \<Rightarrow> body
     \<Rightarrow> world \<Rightarrow> response \<times> world" where
  \<comment> \<open>\<open>server.post('/blogs', verifyToken, async (req, res) => ...)\<close>\<close>
  "post_blogs is_url Date_parse cfg now authorization b w =
     (case verifyToken cfg now authorization w of
        (Some rejected, w1) \<Rightarrow> (rejected, w1)
      | (None, w1) \<Rightarrow> create_post is_url Date_parse now b w1)"

section \<open>Predicates of the statements\<close>

definition slug_char :: "char \<Rightarrow> bool" where
  "slug_char c \<longleftrightarrow> is_slug_alnum c \<or> is_hyphen c"

text \<open>No two hyphens in a row.\<close>
fun single_hyphens :: "string \<Rightarrow> bool" where
  "single_hyphens [] = True"
| "single_hyphens [c] = True"
| "single_hyphens (c # d # cs) = (\<not> (is_hyphen c \<and> is_hyphen d) \<and> single_hyphens (d # cs))"

text \<open>The shape of a normalized slug: empty, or allowed characters only, no hyphen at either
  end and no two hyphens in a row.\<close>
definition slug_shaped :: "string \<Rightarrow> bool" where
  "slug_shaped s \<longleftrightarrow>
     (\<forall>c \<in> set s. slug_char c) \<and> single_hyphens s \<and>
     (s \<noteq> [] \<longrightarrow> \<not> is_hyphen (hd s) \<and> \<not> is_hyphen (last s))"

text \<open>
  Collapsing white space, in the words of the spec: the words of a text are its maximal
  runs of characters that are not white space, and the collapsed text is these words with
  one space between two of them.
\<close>

lemma words_of_shorter:
  "dropWhile P s = c # cs \<Longrightarrow> length (dropWhile Q cs) < length s"
proof -
  assume "dropWhile P s = c # cs"
  then have "length (c # cs) \<le> length s"
    using length_dropWhile_le[of P s] by simp
  moreover have "length (dropWhile Q cs) \<le> length cs"
    by (rule length_dropWhile_le)
  ultimately show ?thesis by simp
qed

function words_of :: "string \<Rightarrow> string list" where
  "words_of s =
     (case dropWhile is_space s of
        [] \<Rightarrow> []
      | c # cs \<Rightarrow>
          (c # takeWhile (\<lambda>x. \<not> is_space x) cs) #
          words_of (dropWhile (\<lambda>x. \<not> is_space x) cs))"
  by pat_completeness auto
termination
  by (relation "measure length") (auto dest: words_of_shorter)

declare words_of.simps [simp del]

fun join_words :: "string list \<Rightarrow> string" where
  "join_words [] = []"
| "join_words [w] = w"
| "join_words (w # v # ws) = w @ '' '' @ join_words (v # ws)"

definition collapse_whitespace :: "string \<Rightarrow> string" where
  "collapse_whitespace s = join_words (words_of s)"

text \<open>
  The links the pattern of \<open>summarize\<close> removes. Read from an opening bracket, \<open>[label](url)\<close>
  is such a link when it lies on one line, the label ends at the first \<open>](\<close> that follows
  the bracket and the url at the first closing parenthesis that follows that.
\<close>

fun has_close :: "string \<Rightarrow> bool" where
  \<comment> \<open>whether \<open>](\<close> occurs in the text\<close>
  "has_close (c # d # cs) = ((c = CHR '']'' \<and> d = CHR ''('') \<or> has_close (d # cs))"
| "has_close cs = False"

definition inline_link :: "string \<Rightarrow> string \<Rightarrow> bool" where
  "inline_link label url \<longleftrightarrow>
     (\<forall>c \<in> set (label @ url). \<not> is_line_terminator c) \<and>
     \<not> has_close (label @ '']'') \<and> CHR '')'' \<notin> set url"

section \<open>Sample inputs\<close>

text \<open>A configuration, a clock and a store on which the theorems below are instantiated.\<close>

definition sample_env :: env where
  "sample_env =
     [''ADMIN_SECRET_KEY'' \<mapsto> ''hunter2'', ''AUTH_TOKEN_SECRET'' \<mapsto> ''s3cret'',
      ''MONGODB_URI'' \<mapsto> ''mongodb://db/blog'']"

definition sample_config :: config where
  "sample_config =
     \<lparr>ADMIN_SECRET_KEY = ''hunter2'', AUTH_TOKEN_SECRET = ''s3cret'',
      TOKEN_EXPIRY = ''30m'', MONGODB_URI = ''mongodb://db/blog''\<rparr>"

definition sample_ms :: "string \<Rightarrow> int option" where
  \<comment> \<open>the durations of \<open>30m\<close> and \<open>0s\<close>; the other strings of the samples denote none\<close>
  "sample_ms s = (if s = ''30m'' then Some 1800000 else if s = ''0s'' then Some 0 else None)"

definition sample_world :: world where
  "sample_world = \<lparr>posts = [], failing = None, trace = []\<rparr>"

definition sample_token :: string where
  \<comment> \<open>what a login at clock reading 5000 returns under the sample configuration\<close>
  "sample_token = ''1[11:blog:create5000;+1805000;s3cret.''"

definition sample_token_0s :: string where
  \<comment> \<open>what a login at clock reading 5000 returns when \<open>TOKEN_EXPIRY\<close> is \<open>0s\<close>\<close>
  "sample_token_0s = ''1[11:blog:create5000;+5000;s3cret.''"

definition sample_body :: body where
  "sample_body =
     [''title'' \<mapsto> JStr ''Hello World'',
      ''content'' \<mapsto> JStr ''Twenty characters of content.'',
      ''date'' \<mapsto> JStr ''2024-01-05T10:30:00Z'']"

definition sample_Date_parse :: "string \<Rightarrow> int option" where
  "sample_Date_parse s = (if s = ''2024-01-05T10:30:00Z'' then Some 1704450600000 else None)"

definition sample_data :: data where
  "sample_data =
     \<lparr>in_title = ''Hello World'', in_slug = ''hello-world'', in_author = [],
      in_date = Some ''2024-01-05T10:30:00Z'', in_excerpt = None, in_image = None,
      in_content = ''Twenty characters of content.''\<rparr>"

definition sample_document :: document where
  "sample_document =
     \<lparr>slug = ''hello-world'', title = ''Hello World'', author = ''Perceptron Team'',
      excerpt = [], image = [], content = ''Twenty characters of content.'',
      publishedAt = Some 1704412800000\<rparr>"

definition sample_long_date :: string where
  "sample_long_date = ''sometime in the first week of January 2024''"

definition sample_post :: post where
  "sample_post =
     \<lparr>slug = ''title'', title = ''Title'', author = ''Perceptron Team'', excerpt = [],
      image = [],
      content = ''# Title'' @ [CHR 0x0A] @ ''Some **bold** text here that is long enough.'',
      publishedAt = None, createdAt = 1704450600000, updatedAt = 1704450600000\<rparr>"


definition sample_store :: world where
  "sample_store =
     \<lparr>posts =
        [\<lparr>slug = ''first'', title = ''First'', author = ''Perceptron Team'',
          excerpt = ''The first post.'', image = [], content = ''Twenty characters of content.'',
          publishedAt = Some 1704326400000, createdAt = 1704450600000,
          updatedAt = 1704450600000\<rparr>,
         \<lparr>slug = ''second'', title = ''Second'', author = ''Perceptron Team'',
          excerpt = ''The second post.'', image = [], content = ''Twenty characters of content.'',
          publishedAt = Some 1704412800000, createdAt = 1704450700000,
          updatedAt = 1704450700000\<rparr>,
         \<lparr>slug = ''third'', title = ''Third'', author = ''Perceptron Team'',
          excerpt = ''The third post.'', image = [], content = ''Twenty characters of content.'',
          publishedAt = Some 1704412800000, createdAt = 1704450800000,
          updatedAt = 1704450800000\<rparr>],
      failing = None, trace = []\<rparr>"

definition sample_huge_limit :: string where
  \<comment> \<open>the decimal numeral of \<open>10^309\<close>\<close>
  "sample_huge_limit = CHR ''1'' # replicate 309 CHR ''0''"


section \<open>Properties of the slug normalizer\<close>


lemma alnum_not_space: "is_slug_alnum c \<Longrightarrow> \<not> is_space c"
  by (auto simp add: is_slug_alnum_def is_space_def Let_def)

lemma alnum_not_hyphen: "is_slug_alnum c \<Longrightarrow> \<not> is_hyphen c"
  by (auto simp add: is_slug_alnum_def is_hyphen_def Let_def)

lemma hyphen_not_space: "is_hyphen c \<Longrightarrow> \<not> is_space c"
  by (auto simp add: is_hyphen_def is_space_def)

lemma toLowerChar_alnum: "is_slug_alnum c \<Longrightarrow> toLowerChar c = c"
  by (auto simp add: toLowerChar_def is_upper_def is_slug_alnum_def Let_def)

lemma toLowerChar_hyphen: "is_hyphen c \<Longrightarrow> toLowerChar c = c"
  by (auto simp add: toLowerChar_def is_upper_def is_hyphen_def Let_def)

lemma replace_runs_none: "\<forall>c \<in> set s. \<not> P c \<Longrightarrow> replace_runs P r s = s"
  by (induction s) auto

lemma set_replace_runs:
  "set (replace_runs P r s) \<subseteq> {c \<in> set s. \<not> P c} \<union> set r"
proof (induction P r s rule: replace_runs.induct)
  case (1 P r)
  then show ?case by simp
next
  case (2 P r c cs)
  show ?case
  proof (cases "P c")
    case True
    have "set (dropWhile P cs) \<subseteq> set cs" by (auto dest: set_dropWhileD)
    with 2(1)[OF True] True show ?thesis by auto
  next
    case False
    with 2(2)[OF False] show ?thesis by auto
  qed
qed

lemma replace_runs_head:
  "s = [] \<or> \<not> P (hd s) \<Longrightarrow> replace_runs P r s = [] \<or> \<not> P (hd (replace_runs P r s))"
  by (cases s) auto

lemma single_hyphens_Cons:
  "single_hyphens s \<Longrightarrow> s = [] \<or> \<not> is_hyphen (hd s) \<Longrightarrow> single_hyphens (c # s)"
  by (cases s) auto

lemma single_hyphens_Cons2:
  "single_hyphens s \<Longrightarrow> \<not> is_hyphen c \<Longrightarrow> single_hyphens (c # s)"
  by (cases s) auto

lemma single_hyphens_collapse: "single_hyphens (replace_runs is_hyphen ''-'' s)"
proof (induction "is_hyphen" "''-''" s rule: replace_runs.induct)
  case 1
  then show ?case by simp
next
  case (2 c cs)
  show ?case
  proof (cases "is_hyphen c")
    case True
    have "dropWhile is_hyphen cs = [] \<or> \<not> is_hyphen (hd (dropWhile is_hyphen cs))"
      using hd_dropWhile by blast
    then have "replace_runs is_hyphen ''-'' (dropWhile is_hyphen cs) = [] \<or>
        \<not> is_hyphen (hd (replace_runs is_hyphen ''-'' (dropWhile is_hyphen cs)))"
      by (rule replace_runs_head)
    with 2(1)[OF True] True show ?thesis
      by (simp add: single_hyphens_Cons)
  next
    case False
    with 2(2)[OF False] show ?thesis by (simp add: single_hyphens_Cons2)
  qed
qed

lemma single_hyphens_tl: "single_hyphens s \<Longrightarrow> single_hyphens (tl s)"
  by (induction s rule: single_hyphens.induct) auto

lemma single_hyphens_butlast: "single_hyphens s \<Longrightarrow> single_hyphens (butlast s)"
  by (induction s rule: single_hyphens.induct) (auto split: if_splits)

lemma single_hyphens_last:
  "single_hyphens s \<Longrightarrow> s \<noteq> [] \<Longrightarrow> is_hyphen (last s) \<Longrightarrow>
     butlast s = [] \<or> \<not> is_hyphen (last (butlast s))"
  by (induction s rule: single_hyphens.induct) (auto split: if_splits)

lemma replace_runs_single: "single_hyphens s \<Longrightarrow> replace_runs is_hyphen ''-'' s = s"
proof (induction s rule: single_hyphens.induct)
  case 1
  then show ?case by simp
next
  case (2 c)
  then show ?case by (simp add: is_hyphen_def)
next
  case (3 c d cs)
  then show ?case by (auto simp add: is_hyphen_def)
qed

lemma strip_edge_shaped:
  assumes "\<forall>c \<in> set s. slug_char c" and "single_hyphens s"
  shows "slug_shaped (strip_edge_hyphens s)"
proof -
  define r where "r = (case s of [] \<Rightarrow> [] | c # cs \<Rightarrow> if is_hyphen c then cs else s)"
  have r_set: "\<forall>c \<in> set r. slug_char c"
    using assms(1) by (auto simp add: r_def split: list.splits)
  have r_single: "single_hyphens r"
    using assms(2) single_hyphens_tl[of s] by (auto simp add: r_def split: list.splits)
  have r_hd: "r \<noteq> [] \<longrightarrow> \<not> is_hyphen (hd r)"
    using assms(2) by (cases s rule: single_hyphens.cases) (auto simp add: r_def)
  have res: "strip_edge_hyphens s = (if r \<noteq> [] \<and> is_hyphen (last r) then butlast r else r)"
    by (simp add: strip_edge_hyphens_def r_def)
  show ?thesis
  proof (cases "r \<noteq> [] \<and> is_hyphen (last r)")
    case True
    have "\<forall>c \<in> set (butlast r). slug_char c"
      using r_set by (meson in_set_butlastD)
    moreover have "single_hyphens (butlast r)"
      using r_single by (rule single_hyphens_butlast)
    moreover have "butlast r \<noteq> [] \<longrightarrow> \<not> is_hyphen (hd (butlast r))"
      using r_hd by (cases r) (auto split: if_splits)
    moreover have "butlast r = [] \<or> \<not> is_hyphen (last (butlast r))"
      using single_hyphens_last[OF r_single] True by blast
    ultimately show ?thesis using True by (auto simp add: res slug_shaped_def)
  next
    case False
    then show ?thesis using r_set r_single r_hd by (auto simp add: res slug_shaped_def)
  qed
qed

lemma sanitizeSlug_shaped: "slug_shaped (sanitizeSlug v)"
proof -
  let ?a = "strip_disallowed (trim (toLowerCase v))"
  let ?b = "replace_runs is_space ''-'' ?a"
  let ?c = "replace_runs is_hyphen ''-'' ?b"
  have a: "\<forall>c \<in> set ?a. is_slug_alnum c \<or> is_space c \<or> is_hyphen c"
    by (simp add: strip_disallowed_def)
  have b: "\<forall>c \<in> set ?b. slug_char c"
    using set_replace_runs[of is_space "''-''" ?a] a
    by (auto simp add: slug_char_def is_hyphen_def)
  have c: "\<forall>c \<in> set ?c. slug_char c"
    using set_replace_runs[of is_hyphen "''-''" ?b] b
    by (auto simp add: slug_char_def is_hyphen_def)
  have "single_hyphens ?c" by (rule single_hyphens_collapse)
  with c show ?thesis
    unfolding sanitizeSlug_def by (rule strip_edge_shaped)
qed

lemma slug_shaped_match:
  "\<forall>c \<in> set s. slug_char c \<Longrightarrow> single_hyphens s \<Longrightarrow>
   (s \<noteq> [] \<longrightarrow> \<not> is_hyphen (last s)) \<Longrightarrow>
   (\<not> inseg \<longrightarrow> s \<noteq> [] \<and> \<not> is_hyphen (hd s)) \<Longrightarrow> slug_match inseg s"
proof (induction s arbitrary: inseg)
  case Nil
  then show ?case by simp
next
  case (Cons c cs)
  show ?case
  proof (cases "is_slug_alnum c")
    case True
    have "slug_match True cs"
      using Cons.prems by (intro Cons.IH) (auto simp add: single_hyphens_tl[of "c # cs", simplified] split: if_splits)
    with True show ?thesis by simp
  next
    case False
    with Cons.prems(1) have h: "is_hyphen c" by (simp add: slug_char_def)
    with Cons.prems(4) have inseg by auto
    from h Cons.prems(3) have ne: "cs \<noteq> []" by auto
    from h Cons.prems(2) ne have hd: "\<not> is_hyphen (hd cs)" by (cases cs) auto
    have "slug_match False cs"
      using Cons.prems ne hd by (intro Cons.IH) (auto simp add: single_hyphens_tl[of "c # cs", simplified])
    with False h \<open>inseg\<close> show ?thesis by simp
  qed
qed

lemma slug_shaped_regex: "slug_shaped s \<Longrightarrow> s = [] \<or> slug_regex s"
  unfolding slug_shaped_def slug_regex_def
  by (cases "s = []") (auto intro: slug_shaped_match)

lemma slug_shaped_fixed:
  assumes "slug_shaped s"
  shows "sanitizeSlug s = s"
proof -
  from assms have chars: "\<forall>c \<in> set s. slug_char c" and single: "single_hyphens s"
    and ends: "s \<noteq> [] \<longrightarrow> \<not> is_hyphen (hd s) \<and> \<not> is_hyphen (last s)"
    by (auto simp add: slug_shaped_def)
  have nospace: "\<forall>c \<in> set s. \<not> is_space c"
    using chars alnum_not_space hyphen_not_space by (auto simp add: slug_char_def)
  have 1: "toLowerCase s = s"
    unfolding toLowerCase_def using chars
    by (intro map_idI) (auto simp add: slug_char_def toLowerChar_alnum toLowerChar_hyphen)
  have 2: "trim s = s"
  proof -
    have "dropWhile is_space s = s" using nospace by (cases s) auto
    moreover have "dropWhile is_space (rev s) = rev s" using nospace by (cases "rev s") auto
    ultimately show ?thesis by (simp add: trim_def)
  qed
  have 3: "strip_disallowed s = s"
    unfolding strip_disallowed_def using chars by (intro filter_True) (auto simp add: slug_char_def)
  have 4: "replace_runs is_space ''-'' s = s"
    using nospace by (rule replace_runs_none)
  have 5: "replace_runs is_hyphen ''-'' s = s"
    using single by (rule replace_runs_single)
  have 6: "strip_edge_hyphens s = s"
    using ends by (cases s) (auto simp add: strip_edge_hyphens_def)
  show ?thesis
    by (simp add: sanitizeSlug_def 1 2 3 4 5 6)
qed

lemma sanitizeSlug_Nil: "sanitizeSlug [] = []"
  by (simp add: sanitizeSlug_def strip_edge_hyphens_def strip_disallowed_def trim_def
      toLowerCase_def)

text \<open>
  C4. The slug normalizer is total and idempotent: \<open>sanitizeSlug\<close> is a function on all
  strings (no input makes it fail), it maps the empty string to the empty string, and
  normalizing a normalized slug changes nothing.
\<close>

theorem sanitizeSlug_total_idempotent:
  "sanitizeSlug [] = [] \<and> sanitizeSlug (sanitizeSlug x) = sanitizeSlug x"
proof
  show "sanitizeSlug [] = []"
    by (rule sanitizeSlug_Nil)
  show "sanitizeSlug (sanitizeSlug x) = sanitizeSlug x"
    using sanitizeSlug_shaped by (rule slug_shaped_fixed)
qed

section \<open>Properties of the payload schema\<close>

lemma schema_Inr:
  assumes "blogPayloadSchema is_url p = Inr d"
  shows "z_string [z_min 3, z_max 160] (p ''title'') = Inr (in_title d)"
    and "slug_rule (p ''slug'') = Inr (in_slug d)"
    and "z_default [] (z_string [z_max 120]) (p ''author'') = Inr (in_author d)"
    and "z_optional (z_string [z_max 40]) (p ''date'') = Inr (in_date d)"
    and "z_optional (z_string [z_max 320]) (p ''excerpt'') = Inr (in_excerpt d)"
    and "z_image is_url (p ''image'') = Inr (in_image d)"
    and "z_string [z_min 20] (p ''content'') = Inr (in_content d)"
  using assms unfolding blogPayloadSchema_def Let_def
  by (auto split: sum.splits)

lemma schema_Inl_slug:
  assumes "slug_rule (p ''slug'') = Inl cs"
  shows "\<exists>issues. blogPayloadSchema is_url p = Inl issues \<and> Pair ''slug'' ` set cs \<subseteq> set issues"
  using assms unfolding blogPayloadSchema_def Let_def
  by (auto simp add: tag_def split: sum.splits)

lemma failed_checks_slug:
  "failed_checks [z_min 3, z_max 160, z_regex slug_regex] s =
     (if 3 \<le> length s then [] else [too_small]) @
     (if length s \<le> 160 then [] else [too_big]) @
     (if slug_regex s then [] else [invalid_string])"
  by (simp add: failed_checks_def z_min_def z_max_def z_regex_def)

lemma slug_regex_Nil: "\<not> slug_regex []"
  by (simp add: slug_regex_def)

lemma slug_rule_Nil: "slug_rule (Some (JStr [])) = Inl [too_small, invalid_string]"
  by (simp add: slug_rule_def z_string_def failed_checks_slug slug_regex_Nil)

text \<open>
  C9, as the code has it. Every output of the normalizer is empty or matches the slug
  pattern. A normalized slug that is not empty is rejected by the slug rule of the schema
  for its length alone (below 3 or above 160); the empty normalized slug breaks the length
  rule and the character-class rule, and the schema reports both.
\<close>

theorem normalized_slug_rule:
  "(sanitizeSlug x = [] \<or> slug_regex (sanitizeSlug x)) \<and>
   slug_rule (Some (JStr (sanitizeSlug x))) =
     (if sanitizeSlug x = [] then Inl [too_small, invalid_string]
      else if length (sanitizeSlug x) < 3 then Inl [too_small]
      else if 160 < length (sanitizeSlug x) then Inl [too_big]
      else Inr (sanitizeSlug x))"
proof -
  have shape: "sanitizeSlug x = [] \<or> slug_regex (sanitizeSlug x)"
    using sanitizeSlug_shaped by (rule slug_shaped_regex)
  then show ?thesis
    by (auto simp add: slug_rule_def z_string_def failed_checks_slug slug_regex_Nil)
qed

text \<open>
  The claim C9 says that the character-class rule never rejects a normalized slug. The
  normalized slug of the empty string (or of a title made of punctuation) is empty, and
  the pattern rejects it: the issue \<open>invalid_string\<close> of the slug field is reported.
\<close>

theorem empty_slug_fails_pattern:
  "\<not> slug_regex (sanitizeSlug []) \<and>
   slug_rule (Some (JStr (sanitizeSlug []))) = Inl [too_small, invalid_string]"
  by (simp add: sanitizeSlug_Nil slug_regex_Nil slug_rule_Nil)

section \<open>Properties of the token library\<close>

lemma digit_char_digit: "d < 10 \<Longrightarrow> is_digit (digit_char d)"
  by (simp add: is_digit_def digit_char_def Let_def)

lemma digit_val_char: "d < 10 \<Longrightarrow> digit_val (digit_char d) = d"
  by (simp add: digit_val_def digit_char_def)

lemma show_nat_digits: "c \<in> set (show_nat n) \<Longrightarrow> is_digit c"
proof (induction n arbitrary: c rule: show_nat.induct)
  case (1 n)
  show ?case
  proof (cases "n < 10")
    case True
    with 1(2) show ?thesis by (subst (asm) show_nat.simps) (simp add: digit_char_digit)
  next
    case False
    with 1(2) have "c \<in> set (show_nat (n div 10)) \<or> c = digit_char (n mod 10)"
      by (subst (asm) show_nat.simps) auto
    with 1(1)[OF False] show ?thesis
      by (auto simp add: digit_char_digit)
  qed
qed

lemma show_nat_not_Nil: "show_nat n \<noteq> []"
  by (subst show_nat.simps) simp

lemma read_digits_snoc: "read_digits (ds @ [c]) = 10 * read_digits ds + digit_val c"
  by (simp add: read_digits_def)

lemma read_show_nat: "read_digits (show_nat n) = n"
proof (induction n rule: show_nat.induct)
  case (1 n)
  show ?case
  proof (cases "n < 10")
    case True
    then show ?thesis
      by (subst show_nat.simps) (simp add: read_digits_def digit_val_char)
  next
    case False
    have "read_digits (show_nat n) = 10 * read_digits (show_nat (n div 10)) + n mod 10"
      using False by (subst show_nat.simps) (simp add: read_digits_snoc digit_val_char)
    with 1[OF False] show ?thesis by simp
  qed
qed

lemma dec_nat_show:
  assumes "\<not> is_digit e"
  shows "dec_nat e (show_nat n @ e # r) = Some (n, r)"
proof -
  have t: "takeWhile is_digit (show_nat n @ e # r) = show_nat n"
    using assms by (simp add: takeWhile_append2 show_nat_digits)
  have d: "dropWhile is_digit (show_nat n @ e # r) = e # r"
    using assms by (simp add: dropWhile_append2 show_nat_digits)
  show ?thesis
    by (simp add: dec_nat_def t d show_nat_not_Nil read_show_nat)
qed

lemma not_digit_marks:
  "\<not> is_digit CHR '';''" "\<not> is_digit CHR '':''" "\<not> is_digit CHR ''[''"
  by (simp_all add: is_digit_def)

lemma dec_enc_nat: "dec_nat CHR '';'' (enc_nat n @ r) = Some (n, r)"
  by (simp add: enc_nat_def dec_nat_show not_digit_marks)

lemma dec_enc_int: "dec_int (enc_int i @ r) = Some (i, r)"
  by (simp add: enc_int_def dec_int_def dec_nat_show not_digit_marks)

lemma dec_enc_str: "dec_str (enc_str s @ r) = Some (s, r)"
  by (simp add: enc_str_def dec_str_def dec_nat_show not_digit_marks)

lemma dec_enc_strs: "dec_strs (length xs) (concat (map enc_str xs) @ r) = Some (xs, r)"
  by (induction xs) (simp_all add: dec_enc_str)

lemma dec_enc_list: "dec_list (enc_list xs @ r) = Some (xs, r)"
  by (simp add: enc_list_def dec_list_def dec_nat_show not_digit_marks dec_enc_strs)

lemma jwt_decode_encode: "jwt_decode (jwt_encode p expires key) = Some (p, expires, key)"
  by (simp add: jwt_encode_def jwt_decode_def dec_enc_list dec_enc_nat dec_enc_int)

lemma jwt_verify_encode:
  "jwt_verify (JStr (jwt_encode p expires key)) secret now =
     (if key \<noteq> secret then Inl JsonWebTokenError
      else if int now < expires then Inr p
      else Inl TokenExpiredError)"
  by (simp add: jwt_verify_def jwt_decode_encode)

lemma trim_no_edge_space:
  assumes "s \<noteq> []" and "\<not> is_space (hd s)" and "\<not> is_space (last s)"
  shows "trim s = s"
proof -
  have 1: "dropWhile is_space s = s"
    using assms by (cases s) auto
  have 2: "dropWhile is_space (rev s) = rev s"
    using assms by (cases "rev s") (auto simp add: last_rev hd_rev)
  show ?thesis by (simp add: trim_def 1 2)
qed

lemma digit_not_space: "is_digit c \<Longrightarrow> \<not> is_space c"
  by (auto simp add: is_digit_def is_space_def Let_def)

lemma trim_jwt_encode: "trim (jwt_encode c e key) = jwt_encode c e key"
proof (rule trim_no_edge_space)
  show "jwt_encode c e key \<noteq> []"
    by (simp add: jwt_encode_def)
  have "hd (jwt_encode c e key) = hd (show_nat (length (scope c)))"
    by (simp add: jwt_encode_def enc_list_def show_nat_not_Nil)
  moreover have "is_digit (hd (show_nat (length (scope c))))"
    by (rule show_nat_digits[of _ "length (scope c)"]) (rule hd_in_set, rule show_nat_not_Nil)
  ultimately show "\<not> is_space (hd (jwt_encode c e key))"
    by (simp add: digit_not_space)
  show "\<not> is_space (last (jwt_encode c e key))"
    by (simp add: jwt_encode_def is_space_def)
qed

subsection \<open>The sample token\<close>

lemma digit_chars:
  "digit_char 0 = CHR ''0''" "digit_char 1 = CHR ''1''" "digit_char 2 = CHR ''2''"
  "digit_char 3 = CHR ''3''" "digit_char 4 = CHR ''4''" "digit_char 5 = CHR ''5''"
  "digit_char 6 = CHR ''6''" "digit_char 7 = CHR ''7''" "digit_char 8 = CHR ''8''"
  "digit_char 9 = CHR ''9''" "digit_char (Suc 0) = CHR ''1''"
  by code_simp+

lemma sample_encodings:
  "enc_list [''blog:create''] = ''1[11:blog:create''"
  "enc_list [] = ''0[''"
  "enc_nat 5000 = ''5000;''"
  "enc_int 1805000 = ''+1805000;''"
  "enc_int 5000 = ''+5000;''"
  by (simp_all add: enc_list_def enc_str_def enc_nat_def enc_int_def show_nat.simps digit_chars)

lemma sample_token_encode:
  "sample_token = jwt_encode \<lparr>scope = [''blog:create''], issuedAt = 5000\<rparr> 1805000 ''s3cret''"
  by (simp add: sample_token_def jwt_encode_def sample_encodings)

lemma sample_token_0s_encode:
  "sample_token_0s = jwt_encode \<lparr>scope = [''blog:create''], issuedAt = 5000\<rparr> 5000 ''s3cret''"
  by (simp add: sample_token_0s_def jwt_encode_def sample_encodings)

lemma startsWith_Nil: "\<not> startsWith [] ''Bearer ''"
  by (simp add: startsWith_def)

lemma verifyToken_missing:
  "authorization = None \<or> (\<exists>a. authorization = Some a \<and> \<not> startsWith a ''Bearer '') \<Longrightarrow>
   verifyToken cfg now authorization w =
     (Some \<lparr>status = 401, sent = Error ''Missing authorization header.''\<rparr>, w)"
  by (auto simp add: verifyToken_def)

lemma verifyToken_bearer:
  assumes "startsWith a ''Bearer ''"
  shows "verifyToken cfg now (Some a) w =
     (case jwt_verify (JStr (trim (drop (length ''Bearer '') a))) (AUTH_TOKEN_SECRET cfg) now of
        Inr decoded \<Rightarrow> (None, w)
      | Inl error \<Rightarrow>
          (Some \<lparr>status = 401, sent = Error ''Invalid or expired token.''\<rparr>,
           console_error ''Invalid token'' w))"
  using assms startsWith_Nil by (auto simp add: verifyToken_def Let_def)

lemma sample_token_verify:
  "jwt_verify (JStr (trim (drop (length ''Bearer '') (''Bearer '' @ sample_token))))
       (AUTH_TOKEN_SECRET sample_config) now =
     (if int now < 1805000 then Inr \<lparr>scope = [''blog:create''], issuedAt = 5000\<rparr>
      else Inl TokenExpiredError)"
proof -
  have "trim (drop (length ''Bearer '') (''Bearer '' @ sample_token)) = sample_token"
    by (simp add: sample_token_encode trim_jwt_encode)
  then show ?thesis
    by (simp add: sample_token_encode jwt_verify_encode sample_config_def)
qed

lemma sample_authorized:
  "verifyToken sample_config 6000 (Some (''Bearer '' @ sample_token)) w = (None, w)"
proof -
  have "startsWith (''Bearer '' @ sample_token) ''Bearer ''"
    by (simp add: startsWith_def)
  then show ?thesis
    unfolding verifyToken_bearer [OF \<open>startsWith (''Bearer '' @ sample_token) ''Bearer ''\<close>]
      sample_token_verify
    by simp
qed

lemma sample_route:
  "post_blogs is_url Date_parse sample_config 6000 (Some (''Bearer '' @ sample_token)) b w =
     create_post is_url Date_parse 6000 b w"
  unfolding post_blogs_def sample_authorized by simp

section \<open>The create route: slug candidate\<close>

lemma coalesce_some: "v \<noteq> JNull \<Longrightarrow> coalesce (Some v) b = v"
  by (cases v) auto

lemma create_post_empty_slug:
  assumes "b ''slug'' = Some (JStr [])"
  shows "\<exists>issues. create_post is_url Date_parse now b w =
           (\<lparr>status = 400, sent = InvalidPayload ''Invalid blog payload.'' issues\<rparr>, w) \<and>
         (''slug'', too_small) \<in> set issues"
proof -
  have cand: "slug_candidate b = Some []"
    using assms by (simp add: slug_candidate_def)
  let ?p = "b(''slug'' \<mapsto> JStr (sanitizeSlug []))"
  have "slug_rule (?p ''slug'') = Inl [too_small, invalid_string]"
    by (simp add: sanitizeSlug_Nil slug_rule_Nil)
  from schema_Inl_slug[where p = "?p" and is_url = is_url, OF this]
  obtain issues where "blogPayloadSchema is_url ?p = Inl issues"
    and "(''slug'', too_small) \<in> set issues"
    by auto
  then show ?thesis
    by (simp add: create_post_def cand Let_def)
qed

text \<open>
  C10. The slug candidate of the create route is the text of the slug field whenever that
  field is neither absent nor null, the empty string included, and then the title plays
  no part; the title is read only when the slug field is absent or null. So a request
  whose slug is the empty string is answered 400 by the protected route (with a length
  issue on the slug), whatever its title, and nothing is stored or logged.
\<close>

theorem explicit_slug_precedence:
  assumes auth: "verifyToken cfg now authorization w = (None, w)"
  shows "(\<forall>v. b ''slug'' = Some v \<and> v \<noteq> JNull \<longrightarrow>
            slug_candidate b = js_String v \<and>
            slug_candidate (b(''title'' := t)) = slug_candidate b) \<and>
         (b ''slug'' = None \<or> b ''slug'' = Some JNull \<longrightarrow>
            slug_candidate b = js_String (coalesce (b ''title'') (JStr []))) \<and>
         (b ''slug'' = Some (JStr []) \<longrightarrow>
            (\<exists>issues.
               post_blogs is_url Date_parse cfg now authorization b w =
                 (\<lparr>status = 400, sent = InvalidPayload ''Invalid blog payload.'' issues\<rparr>, w) \<and>
               (''slug'', too_small) \<in> set issues))"
proof (intro conjI allI impI)
  fix v assume "b ''slug'' = Some v \<and> v \<noteq> JNull"
  then show "slug_candidate b = js_String v"
    and "slug_candidate (b(''title'' := t)) = slug_candidate b"
    by (simp_all add: slug_candidate_def coalesce_some)
next
  assume "b ''slug'' = None \<or> b ''slug'' = Some JNull"
  then show "slug_candidate b = js_String (coalesce (b ''title'') (JStr []))"
    by (auto simp add: slug_candidate_def)
next
  assume "b ''slug'' = Some (JStr [])"
  from create_post_empty_slug[where b = b and is_url = is_url and Date_parse = Date_parse
      and now = now and w = w, OF this] auth
  show "\<exists>issues.
          post_blogs is_url Date_parse cfg now authorization b w =
            (\<lparr>status = 400, sent = InvalidPayload ''Invalid blog payload.'' issues\<rparr>, w) \<and>
          (''slug'', too_small) \<in> set issues"
    by (simp add: post_blogs_def)
qed

theorem explicit_slug_precedence_witness:
  "slug_candidate [''slug'' \<mapsto> JStr [], ''title'' \<mapsto> JStr ''Hello World'',
           ''content'' \<mapsto> JStr ''Twenty characters of content.''] = Some [] \<and>
   sanitizeSlug ''Hello World'' = ''hello-world'' \<and>
   slug_rule (Some (JStr ''hello-world'')) = Inr ''hello-world'' \<and>
   (\<exists>issues.
      post_blogs (\<lambda>s. False) (\<lambda>s. None) sample_config 6000
          (Some (''Bearer '' @ sample_token))
          [''slug'' \<mapsto> JStr [], ''title'' \<mapsto> JStr ''Hello World'',
           ''content'' \<mapsto> JStr ''Twenty characters of content.''] sample_world =
        (\<lparr>status = 400, sent = InvalidPayload ''Invalid blog payload.'' issues\<rparr>, sample_world) \<and>
      (''slug'', too_small) \<in> set issues)"
proof -
  have 1: "sanitizeSlug ''Hello World'' = ''hello-world''" by code_simp
  have 2: "slug_rule (Some (JStr ''hello-world'')) = Inr ''hello-world''" by code_simp
  show ?thesis
    using explicit_slug_precedence [OF sample_authorized,
        where b = "[''slug'' \<mapsto> JStr [], ''title'' \<mapsto> JStr ''Hello World'',
                    ''content'' \<mapsto> JStr ''Twenty characters of content.'']"
          and t = None and is_url = "\<lambda>s. False" and Date_parse = "\<lambda>s. None"] 1 2
    by simp
qed

section \<open>The authentication middleware\<close>

text \<open>
  C3. The middleware answers 401 \<open>Missing authorization header.\<close> when the authorization
  header is absent (or empty) or does not start with \<open>Bearer \<close>; it answers 401
  \<open>Invalid or expired token.\<close> when the verification of the token throws; otherwise it
  calls \<open>next()\<close> and the protected route is the create handler, whatever the claims of
  the token are: a token that verifies passes with any scope, the empty one included.
\<close>

theorem verifyToken_outcomes:
  "(authorization = None \<or> (\<exists>a. authorization = Some a \<and> \<not> startsWith a ''Bearer '') \<longrightarrow>
      fst (verifyToken cfg now authorization w) =
        Some \<lparr>status = 401, sent = Error ''Missing authorization header.''\<rparr>) \<and>
   (\<forall>a e. authorization = Some a \<and> startsWith a ''Bearer '' \<and>
           jwt_verify (JStr (trim (drop (length ''Bearer '') a))) (AUTH_TOKEN_SECRET cfg) now = Inl e \<longrightarrow>
      fst (verifyToken cfg now authorization w) =
        Some \<lparr>status = 401, sent = Error ''Invalid or expired token.''\<rparr>) \<and>
   (\<forall>a c. authorization = Some a \<and> startsWith a ''Bearer '' \<and>
           jwt_verify (JStr (trim (drop (length ''Bearer '') a))) (AUTH_TOKEN_SECRET cfg) now = Inr c \<longrightarrow>
      verifyToken cfg now authorization w = (None, w) \<and>
      post_blogs is_url Date_parse cfg now authorization b w =
        create_post is_url Date_parse now b w) \<and>
   (\<forall>c expires. int now < expires \<longrightarrow>
      verifyToken cfg now (Some (''Bearer '' @ jwt_encode c expires (AUTH_TOKEN_SECRET cfg))) w =
        (None, w))"
proof (intro conjI allI impI)
  assume "authorization = None \<or> (\<exists>a. authorization = Some a \<and> \<not> startsWith a ''Bearer '')"
  then show "fst (verifyToken cfg now authorization w) =
      Some \<lparr>status = 401, sent = Error ''Missing authorization header.''\<rparr>"
    by (simp add: verifyToken_missing)
next
  fix a e
  assume "authorization = Some a \<and> startsWith a ''Bearer '' \<and>
          jwt_verify (JStr (trim (drop (length ''Bearer '') a))) (AUTH_TOKEN_SECRET cfg) now = Inl e"
  then show "fst (verifyToken cfg now authorization w) =
      Some \<lparr>status = 401, sent = Error ''Invalid or expired token.''\<rparr>"
    by (simp add: verifyToken_bearer)
next
  fix a c
  assume h: "authorization = Some a \<and> startsWith a ''Bearer '' \<and>
          jwt_verify (JStr (trim (drop (length ''Bearer '') a))) (AUTH_TOKEN_SECRET cfg) now = Inr c"
  then show pass: "verifyToken cfg now authorization w = (None, w)"
    by (simp add: verifyToken_bearer)
  then show "post_blogs is_url Date_parse cfg now authorization b w =
      create_post is_url Date_parse now b w"
    by (simp add: post_blogs_def)
next
  fix c :: payload and expires :: int
  assume live: "int now < expires"
  let ?a = "''Bearer '' @ jwt_encode c expires (AUTH_TOKEN_SECRET cfg)"
  have "startsWith ?a ''Bearer ''"
    by (simp add: startsWith_def)
  moreover have "trim (drop (length ''Bearer '') ?a) = jwt_encode c expires (AUTH_TOKEN_SECRET cfg)"
    by (simp add: trim_jwt_encode)
  ultimately show "verifyToken cfg now (Some ?a) w = (None, w)"
    using live by (simp add: verifyToken_bearer jwt_verify_encode)
qed

theorem verifyToken_outcomes_witness:
  "fst (verifyToken sample_config 6000 None sample_world) =
     Some \<lparr>status = 401, sent = Error ''Missing authorization header.''\<rparr> \<and>
   fst (verifyToken sample_config 6000 (Some ''Basic aHVudGVyMg=='') sample_world) =
     Some \<lparr>status = 401, sent = Error ''Missing authorization header.''\<rparr> \<and>
   fst (verifyToken sample_config 1805000 (Some (''Bearer '' @ sample_token)) sample_world) =
     Some \<lparr>status = 401, sent = Error ''Invalid or expired token.''\<rparr> \<and>
   verifyToken sample_config 6000 (Some (''Bearer '' @ sample_token)) sample_world =
     (None, sample_world) \<and>
   verifyToken sample_config 6000
     (Some (''Bearer '' @ jwt_encode \<lparr>scope = [], issuedAt = 5000\<rparr> 1805000 ''s3cret''))
     sample_world = (None, sample_world)"
proof -
  have a: "\<not> startsWith ''Basic aHVudGVyMg=='' ''Bearer ''"
    by (simp add: startsWith_def)
  have b: "startsWith (''Bearer '' @ sample_token) ''Bearer ''"
    by (simp add: startsWith_def)
  have s: "AUTH_TOKEN_SECRET sample_config = ''s3cret''"
    by (simp add: sample_config_def)
  note g = verifyToken_outcomes [where cfg = sample_config and w = sample_world]
  show ?thesis
    using g [where authorization = None and now = 6000]
      g [where authorization = "Some ''Basic aHVudGVyMg==''" and now = 6000]
      g [where authorization = "Some (''Bearer '' @ sample_token)" and now = 1805000]
      g [where authorization = "Some (''Bearer '' @ sample_token)" and now = 6000]
      a b s sample_token_verify [of 1805000] sample_token_verify [of 6000]
    by simp
qed

section \<open>Logging of expected failures\<close>

lemma create_post_400:
  "status (fst (create_post is_url Date_parse now b w)) = 400 \<Longrightarrow>
   snd (create_post is_url Date_parse now b w) = w"
  by (auto simp add: create_post_def create_failed_def Let_def
      split: sum.splits prod.splits option.splits if_splits)

lemma create_post_not_401:
  "status (fst (create_post is_url Date_parse now b w)) \<noteq> 401"
  by (auto simp add: create_post_def create_failed_def Let_def
      split: sum.splits prod.splits option.splits if_splits)

text \<open>
  C8, as the code has it. On the protected route a request refused for a missing credential
  (401 \<open>Missing authorization header.\<close>) or for an invalid payload (400) leaves the
  trace and the store as they were: nothing is logged. A request refused because the
  token does not verify (401 \<open>Invalid or expired token.\<close>) is logged: the middleware
  writes one \<open>console.error\<close> entry, \<open>Invalid token\<close>. The routes \<open>/auth/login\<close> and
  \<open>/auth/verify\<close> have no access to the log at all.
\<close>

theorem expected_failures_logging:
  "(fst (post_blogs is_url Date_parse cfg now authorization b w) =
      \<lparr>status = 401, sent = Error ''Missing authorization header.''\<rparr> \<longrightarrow>
    snd (post_blogs is_url Date_parse cfg now authorization b w) = w) \<and>
   (status (fst (post_blogs is_url Date_parse cfg now authorization b w)) = 400 \<longrightarrow>
    snd (post_blogs is_url Date_parse cfg now authorization b w) = w) \<and>
   (fst (post_blogs is_url Date_parse cfg now authorization b w) =
      \<lparr>status = 401, sent = Error ''Invalid or expired token.''\<rparr> \<longrightarrow>
    trace (snd (post_blogs is_url Date_parse cfg now authorization b w)) =
      trace w @ [ConsoleError ''Invalid token''] \<and>
    posts (snd (post_blogs is_url Date_parse cfg now authorization b w)) = posts w)"
proof -
  consider (missing) "authorization = None \<or> (\<exists>a. authorization = Some a \<and> \<not> startsWith a ''Bearer '')"
    | (bad) a e where "authorization = Some a" "startsWith a ''Bearer ''"
        "jwt_verify (JStr (trim (drop (length ''Bearer '') a))) (AUTH_TOKEN_SECRET cfg) now = Inl e"
    | (good) a c where "authorization = Some a" "startsWith a ''Bearer ''"
        "jwt_verify (JStr (trim (drop (length ''Bearer '') a))) (AUTH_TOKEN_SECRET cfg) now = Inr c"
    by (cases authorization; cases "jwt_verify (JStr (trim (drop (length ''Bearer '') (the authorization)))) (AUTH_TOKEN_SECRET cfg) now") auto
  then show ?thesis
  proof cases
    case missing
    then show ?thesis
      by (simp add: post_blogs_def verifyToken_missing)
  next
    case bad
    then show ?thesis
      by (simp add: post_blogs_def verifyToken_bearer console_error_def)
  next
    case good
    then have "post_blogs is_url Date_parse cfg now authorization b w =
        create_post is_url Date_parse now b w"
      by (simp add: post_blogs_def verifyToken_bearer)
    then show ?thesis
      using create_post_400[of is_url Date_parse now b w]
        create_post_not_401[of is_url Date_parse now b w]
      by auto
  qed
qed

text \<open>
  The claim C8 says that no failure with an invalid or expired token produces an error log
  entry. A create request with the credential \<open>Bearer x\<close> is answered 401 and leaves the
  entry \<open>Invalid token\<close> in the log.
\<close>

theorem invalid_token_is_logged:
  "fst (post_blogs (\<lambda>s. False) (\<lambda>s. None) sample_config 6000 (Some ''Bearer x'') Map.empty
          sample_world) =
     \<lparr>status = 401, sent = Error ''Invalid or expired token.''\<rparr> \<and>
   trace (snd (post_blogs (\<lambda>s. False) (\<lambda>s. None) sample_config 6000 (Some ''Bearer x'')
          Map.empty sample_world)) =
     [ConsoleError ''Invalid token'']"
  by code_simp

theorem expected_failures_logging_witness:
  "snd (post_blogs (\<lambda>s. False) (\<lambda>s. None) sample_config 6000 None Map.empty sample_world) =
     sample_world \<and>
   snd (post_blogs (\<lambda>s. False) (\<lambda>s. None) sample_config 6000
          (Some (''Bearer '' @ sample_token)) Map.empty sample_world) = sample_world \<and>
   trace (snd (post_blogs (\<lambda>s. False) (\<lambda>s. None) sample_config 6000 (Some ''Bearer x'')
          Map.empty sample_world)) = trace sample_world @ [ConsoleError ''Invalid token'']"
proof -
  have 1: "fst (post_blogs (\<lambda>s. False) (\<lambda>s. None) sample_config 6000 None Map.empty
              sample_world) =
           \<lparr>status = 401, sent = Error ''Missing authorization header.''\<rparr>"
    by code_simp
  have 2: "status (fst (post_blogs (\<lambda>s. False) (\<lambda>s. None) sample_config 6000
              (Some (''Bearer '' @ sample_token)) Map.empty sample_world)) = 400"
    unfolding sample_route by code_simp
  have 3: "fst (post_blogs (\<lambda>s. False) (\<lambda>s. None) sample_config 6000 (Some ''Bearer x'')
              Map.empty sample_world) =
           \<lparr>status = 401, sent = Error ''Invalid or expired token.''\<rparr>"
    by code_simp
  note t = expected_failures_logging [where is_url = "\<lambda>s. False" and Date_parse = "\<lambda>s. None"
      and cfg = sample_config and now = 6000 and b = Map.empty and w = sample_world]
  show ?thesis
    using t [where authorization = None] t [where authorization = "Some (''Bearer '' @ sample_token)"]
      t [where authorization = "Some ''Bearer x''"] 1 2 3
    by simp
qed

section \<open>The write pipeline\<close>

lemma trim_Nil: "trim [] = []"
  by (simp add: trim_def)

lemma trim_edges:
  "trim s = [] \<or> (\<not> is_space (hd (trim s)) \<and> \<not> is_space (last (trim s)))"
proof (cases "trim s = []")
  case True
  then show ?thesis by simp
next
  case False
  let ?t = "dropWhile is_space s"
  let ?u = "dropWhile is_space (rev ?t)"
  from False have u: "?u \<noteq> []" by (simp add: trim_def)
  then have t: "?t \<noteq> []" by (metis dropWhile.simps(1) rev.simps(1))
  have "last (trim s) = hd ?u"
    using u by (simp add: trim_def last_rev)
  moreover have "\<not> is_space (hd ?u)"
    using u hd_dropWhile by blast
  moreover have "hd (trim s) = last ?u"
    using u by (simp add: trim_def hd_rev)
  moreover have "last ?u = last (rev ?t)"
    using u by (metis append_Nil2 last_appendR takeWhile_dropWhile_id)
  moreover have "last (rev ?t) = hd ?t"
    using t by (simp add: last_rev)
  moreover have "\<not> is_space (hd ?t)"
    using t hd_dropWhile by blast
  ultimately show ?thesis by simp
qed

lemma trim_idem: "trim (trim s) = trim s"
proof (cases "trim s = []")
  case True
  then show ?thesis by (simp only: trim_Nil)
next
  case False
  with trim_edges[of s] show ?thesis
    by (intro trim_no_edge_space) auto
qed

lemma slug_match_chars: "slug_match inseg s \<Longrightarrow> c \<in> set s \<Longrightarrow> slug_char c"
  by (induction s arbitrary: inseg) (auto simp add: slug_char_def split: if_splits)

lemma slug_regex_trim:
  assumes "slug_regex s"
  shows "trim s = s"
proof (cases s)
  case Nil
  with assms show ?thesis by (simp add: slug_regex_Nil)
next
  case (Cons c cs)
  have "\<not> is_space x" if "x \<in> set s" for x
    using slug_match_chars[OF assms[unfolded slug_regex_def] that] alnum_not_space hyphen_not_space
    by (auto simp add: slug_char_def)
  then show ?thesis
    using Cons by (intro trim_no_edge_space) auto
qed

lemma z_string_Inr:
  "z_string cs v = Inr s \<Longrightarrow> v = Some (JStr s) \<and> failed_checks cs s = []"
  by (auto simp add: z_string_def split: option.splits json.splits if_splits)

lemma slug_rule_Inr:
  assumes "slug_rule v = Inr s"
  shows "slug_regex s" and "3 \<le> length s" and "length s \<le> 160"
proof -
  from assms have "failed_checks [z_min 3, z_max 160, z_regex slug_regex] s = []"
    unfolding slug_rule_def by (auto dest: z_string_Inr)
  then show "slug_regex s" and "3 \<le> length s" and "length s \<le> 160"
    by (auto simp add: failed_checks_slug split: if_splits)
qed

lemma trim_fallback: "trim ''Perceptron Team'' = ''Perceptron Team''"
  by (rule trim_no_edge_space) (simp_all add: is_space_def)

lemma new_document_fields:
  assumes "slug_regex (in_slug d)"
  shows "slug (new_document Date_parse d) = in_slug d"
    and "title (new_document Date_parse d) = trim (in_title d)"
    and "author (new_document Date_parse d) =
           (if trim (in_author d) = [] then ''Perceptron Team'' else trim (in_author d))"
    and "excerpt (new_document Date_parse d) =
           (case in_excerpt d of None \<Rightarrow> [] | Some e \<Rightarrow> trim e)"
    and "image (new_document Date_parse d) =
           (case in_image d of None \<Rightarrow> [] | Some i \<Rightarrow> trim i)"
    and "content (new_document Date_parse d) = trim (in_content d)"
    and "publishedAt (new_document Date_parse d) = published_at Date_parse (in_date d)"
  using assms
  by (simp_all add: new_document_def BlogPost_def slug_regex_trim trim_idem trim_fallback
      trim_Nil split: option.splits)

lemma code_11000_iff: "code_11000 error \<longleftrightarrow> error = StoreError (NumberCode 11000)"
  by (cases error rule: code_11000.cases) auto

text \<open>
  A body whose slug (or, without a slug, whose title) is an object with a key \<open>toString\<close>
  makes \<open>String\<close> throw: the handler answers 500 and logs the failure, and neither
  validates nor saves. Such a request does not reach validation.
\<close>

lemma create_post_throws:
  assumes "slug_candidate b = None"
  shows "create_post is_url Date_parse now b w =
     (\<lparr>status = 500, sent = Error ''Failed to store the blog post.''\<rparr>,
      console_error ''Failed to persist blog post'' w)"
  using assms by (simp add: create_post_def create_failed_def)

lemma own_toString_throws:
  "js_String (JObj [(''toString'', JNum ''1'')]) = None"
  "js_String (JArr [JStr ''a'', JObj [(''toString'', JNum ''1'')]]) = None"
  "slug_candidate [''slug'' \<mapsto> JObj [(''toString'', JNum ''1'')]] = None"
  by (simp_all add: slug_candidate_def)

lemma save_invalid:
  assumes "title d = [] \<or> content d = []"
  shows "save now d w = (Some ValidationError, w\<lparr>trace := trace w @ [Save d]\<rparr>)"
  using assms by (auto simp add: save_def Let_def)

lemma save_failing:
  assumes "slug d \<noteq> []" and "\<not> (title d = [] \<or> content d = [])"
    and "failing w = Some error"
  shows "save now d w = (Some error, w\<lparr>trace := trace w @ [Save d]\<rparr>)"
  using assms by (simp add: save_def Let_def)

lemma save_duplicate:
  assumes "slug d \<noteq> []" and "\<not> (title d = [] \<or> content d = [])"
    and "failing w = None" and "slug d \<in> set (map slug (posts w))"
  shows "save now d w =
     (Some (StoreError (NumberCode 11000)), w\<lparr>trace := trace w @ [Save d]\<rparr>)"
  using assms by (simp add: save_def Let_def)

lemma save_inserted:
  assumes "slug d \<noteq> []" and "\<not> (title d = [] \<or> content d = [])"
    and "failing w = None" and "slug d \<notin> set (map slug (posts w))"
  shows "save now d w =
     (None, w\<lparr>trace := trace w @ [Save d],
              posts := posts w @
                [\<lparr>slug = slug d, title = title d, author = author d, excerpt = excerpt d,
                  image = image d, content = content d, publishedAt = publishedAt d,
                  createdAt = int now, updatedAt = int now\<rparr>]\<rparr>)"
  using assms by (simp add: save_def Let_def)

lemma pipeline_outcome:
  assumes auth: "verifyToken cfg now authorization w = (None, w)"
    and candidate: "slug_candidate b = Some candidate"
    and valid: "blogPayloadSchema is_url (b(''slug'' \<mapsto> JStr (sanitizeSlug candidate))) = Inr d"
    and result: "post_blogs is_url Date_parse cfg now authorization b w = (r, w')"
    and doc: "doc = new_document Date_parse d"
  shows "slug doc = in_slug d \<and> title doc = trim (in_title d) \<and>
         author doc = (if trim (in_author d) = [] then ''Perceptron Team'' else trim (in_author d)) \<and>
         excerpt doc = (case in_excerpt d of None \<Rightarrow> [] | Some e \<Rightarrow> trim e) \<and>
         image doc = (case in_image d of None \<Rightarrow> [] | Some i \<Rightarrow> trim i) \<and>
         content doc = trim (in_content d) \<and>
         publishedAt doc = published_at Date_parse (in_date d) \<and>
         (if title doc = [] \<or> content doc = []
          then r = \<lparr>status = 500, sent = Error ''Failed to store the blog post.''\<rparr> \<and>
               posts w' = posts w \<and>
               trace w' = trace w @ [Save doc, ConsoleError ''Failed to persist blog post'']
          else case failing w of
            Some error \<Rightarrow>
              if error = StoreError (NumberCode 11000)
              then r = \<lparr>status = 409, sent = Error ''A blog post with this slug already exists.''\<rparr> \<and>
                   posts w' = posts w \<and>
                   trace w' = trace w @ [Save doc]
              else r = \<lparr>status = 500, sent = Error ''Failed to store the blog post.''\<rparr> \<and>
                   posts w' = posts w \<and>
                   trace w' = trace w @ [Save doc, ConsoleError ''Failed to persist blog post'']
          | None \<Rightarrow>
              if slug doc \<in> set (map slug (posts w))
              then r = \<lparr>status = 409, sent = Error ''A blog post with this slug already exists.''\<rparr> \<and>
                   posts w' = posts w \<and>
                   trace w' = trace w @ [Save doc]
              else r = \<lparr>status = 201, sent = Created (in_slug d)\<rparr> \<and>
                   posts w' = posts w @
                     [\<lparr>slug = slug doc, title = title doc, author = author doc,
                       excerpt = excerpt doc, image = image doc, content = content doc,
                       publishedAt = publishedAt doc, createdAt = int now, updatedAt = int now\<rparr>] \<and>
                   trace w' = trace w @ [Save doc])"
proof -
  from schema_Inr(2)[OF valid] have sl: "slug_regex (in_slug d)" "3 \<le> length (in_slug d)"
    by (auto dest: slug_rule_Inr)
  note f = new_document_fields[OF sl(1), of Date_parse, folded doc]
  have ne: "slug doc \<noteq> []"
    using sl(2) f(1) by auto
  have run: "post_blogs is_url Date_parse cfg now authorization b w =
      (case save now doc w of
         (None, w1) \<Rightarrow> (\<lparr>status = 201, sent = Created (slug doc)\<rparr>, w1)
       | (Some error, w1) \<Rightarrow> create_failed error w1)"
    using auth candidate valid unfolding doc by (simp add: post_blogs_def create_post_def Let_def)
  have rw: "(r, w') =
      (case save now doc w of
         (None, w1) \<Rightarrow> (\<lparr>status = 201, sent = Created (slug doc)\<rparr>, w1)
       | (Some error, w1) \<Rightarrow> create_failed error w1)"
    using run result by simp
  have outcome:
    "(if title doc = [] \<or> content doc = []
      then r = \<lparr>status = 500, sent = Error ''Failed to store the blog post.''\<rparr> \<and>
           posts w' = posts w \<and>
           trace w' = trace w @ [Save doc, ConsoleError ''Failed to persist blog post'']
      else case failing w of
        Some error \<Rightarrow>
          if error = StoreError (NumberCode 11000)
          then r = \<lparr>status = 409, sent = Error ''A blog post with this slug already exists.''\<rparr> \<and>
               posts w' = posts w \<and>
               trace w' = trace w @ [Save doc]
          else r = \<lparr>status = 500, sent = Error ''Failed to store the blog post.''\<rparr> \<and>
               posts w' = posts w \<and>
               trace w' = trace w @ [Save doc, ConsoleError ''Failed to persist blog post'']
      | None \<Rightarrow>
          if slug doc \<in> set (map slug (posts w))
          then r = \<lparr>status = 409, sent = Error ''A blog post with this slug already exists.''\<rparr> \<and>
               posts w' = posts w \<and>
               trace w' = trace w @ [Save doc]
          else r = \<lparr>status = 201, sent = Created (in_slug d)\<rparr> \<and>
               posts w' = posts w @
                 [\<lparr>slug = slug doc, title = title doc, author = author doc,
                   excerpt = excerpt doc, image = image doc, content = content doc,
                   publishedAt = publishedAt doc, createdAt = int now, updatedAt = int now\<rparr>] \<and>
               trace w' = trace w @ [Save doc])"
  proof (cases "title doc = [] \<or> content doc = []")
    case True
    from rw save_invalid[OF True, of now w] True show ?thesis
      by (simp add: create_failed_def console_error_def)
  next
    case False
    show ?thesis
    proof (cases "failing w")
      case (Some error)
      from rw save_failing[OF ne False Some, of now] False Some show ?thesis
        by (cases "error = StoreError (NumberCode 11000)")
           (simp_all add: create_failed_def code_11000_iff console_error_def)
    next
      case None
      show ?thesis
      proof (cases "slug doc \<in> set (map slug (posts w))")
        case True
        from rw save_duplicate[OF ne False None True, of now] False None True show ?thesis
          by (simp add: create_failed_def)
      next
        case absent: False
        from rw save_inserted[OF ne False None absent, of now] False None absent f(1)
        show ?thesis
          by simp
      qed
    qed
  qed
  from f outcome show ?thesis by simp
qed

text \<open>
  C1. A create request that passes the middleware and the schema (its slug candidate has a
  text, and the payload with the normalized slug is valid) makes exactly one call of the
  repository insert, with the document built from the validated payload: the slug as
  validated, the other strings trimmed, the author defaulted, the date normalized. When the
  insert succeeds the answer is 201 with the slug alone and the post is in the store. When
  the insert signals a duplicate key (the store holds the slug already, or the exception
  of the failing store carries the code 11000) the answer is 409. On any other failure
  (a required field left empty by the trimming, or any other exception of the store: one
  with another code, with a code that is a string, or with none) the answer is 500 and the
  failure is logged. In each case the trace shows the one insert and no other.
\<close>

theorem write_pipeline:
  assumes auth: "verifyToken cfg now authorization w = (None, w)"
    and candidate: "slug_candidate b = Some candidate"
    and valid: "blogPayloadSchema is_url (b(''slug'' \<mapsto> JStr (sanitizeSlug candidate))) = Inr d"
    and result: "post_blogs is_url Date_parse cfg now authorization b w = (r, w')"
    and doc: "doc = new_document Date_parse d"
  shows "slug doc = in_slug d \<and> title doc = trim (in_title d) \<and>
         author doc = (if trim (in_author d) = [] then ''Perceptron Team'' else trim (in_author d)) \<and>
         excerpt doc = (case in_excerpt d of None \<Rightarrow> [] | Some e \<Rightarrow> trim e) \<and>
         image doc = (case in_image d of None \<Rightarrow> [] | Some i \<Rightarrow> trim i) \<and>
         content doc = trim (in_content d) \<and>
         publishedAt doc = published_at Date_parse (in_date d) \<and>
         (if title doc = [] \<or> content doc = []
          then r = \<lparr>status = 500, sent = Error ''Failed to store the blog post.''\<rparr> \<and>
               posts w' = posts w \<and>
               trace w' = trace w @ [Save doc, ConsoleError ''Failed to persist blog post'']
          else case failing w of
            Some error \<Rightarrow>
              if error = StoreError (NumberCode 11000)
              then r = \<lparr>status = 409, sent = Error ''A blog post with this slug already exists.''\<rparr> \<and>
                   posts w' = posts w \<and>
                   trace w' = trace w @ [Save doc]
              else r = \<lparr>status = 500, sent = Error ''Failed to store the blog post.''\<rparr> \<and>
                   posts w' = posts w \<and>
                   trace w' = trace w @ [Save doc, ConsoleError ''Failed to persist blog post'']
          | None \<Rightarrow>
              if slug doc \<in> set (map slug (posts w))
              then r = \<lparr>status = 409, sent = Error ''A blog post with this slug already exists.''\<rparr> \<and>
                   posts w' = posts w \<and>
                   trace w' = trace w @ [Save doc]
              else r = \<lparr>status = 201, sent = Created (in_slug d)\<rparr> \<and>
                   posts w' = posts w @
                     [\<lparr>slug = slug doc, title = title doc, author = author doc,
                       excerpt = excerpt doc, image = image doc, content = content doc,
                       publishedAt = publishedAt doc, createdAt = int now, updatedAt = int now\<rparr>] \<and>
                   trace w' = trace w @ [Save doc])"
  using assms by (rule pipeline_outcome)

lemma sample_candidate: "slug_candidate sample_body = Some ''Hello World''"
  by (simp add: slug_candidate_def sample_body_def)

lemma sample_valid:
  "blogPayloadSchema (\<lambda>s. False)
     (sample_body(''slug'' \<mapsto> JStr (sanitizeSlug ''Hello World''))) =
   Inr sample_data"
  by code_simp

lemma sample_new_document: "new_document sample_Date_parse sample_data = sample_document"
  by (simp add: new_document_def sample_data_def sample_document_def BlogPost_def
      published_at_def sample_Date_parse_def)
     code_simp

theorem write_pipeline_witness:
  "fst (post_blogs (\<lambda>s. False) sample_Date_parse sample_config 6000
          (Some (''Bearer '' @ sample_token)) sample_body sample_world) =
     \<lparr>status = 201, sent = Created ''hello-world''\<rparr> \<and>
   trace (snd (post_blogs (\<lambda>s. False) sample_Date_parse sample_config 6000
          (Some (''Bearer '' @ sample_token)) sample_body sample_world)) =
     [Save sample_document] \<and>
   fst (post_blogs (\<lambda>s. False) sample_Date_parse sample_config 6000
          (Some (''Bearer '' @ sample_token)) sample_body
          (sample_world\<lparr>failing := Some (StoreError (NumberCode 11000))\<rparr>)) =
     \<lparr>status = 409, sent = Error ''A blog post with this slug already exists.''\<rparr> \<and>
   fst (post_blogs (\<lambda>s. False) sample_Date_parse sample_config 6000
          (Some (''Bearer '' @ sample_token)) sample_body
          (sample_world\<lparr>failing := Some (StoreError (NumberCode 121))\<rparr>)) =
     \<lparr>status = 500, sent = Error ''Failed to store the blog post.''\<rparr> \<and>
   trace (snd (post_blogs (\<lambda>s. False) sample_Date_parse sample_config 6000
          (Some (''Bearer '' @ sample_token)) sample_body
          (sample_world\<lparr>failing := Some (StoreError (NumberCode 121))\<rparr>))) =
     [Save sample_document, ConsoleError ''Failed to persist blog post'']"
proof -
  have facts: "title sample_document \<noteq> []" "content sample_document \<noteq> []"
    "failing sample_world = None" "posts sample_world = []" "trace sample_world = []"
    "in_slug sample_data = ''hello-world''"
    by (simp_all add: sample_document_def sample_world_def sample_data_def)
  note t = write_pipeline [OF sample_authorized sample_candidate sample_valid
      prod.collapse [symmetric] sample_new_document [symmetric]]
  show ?thesis
    using t [of sample_world]
      t [of "sample_world\<lparr>failing := Some (StoreError (NumberCode 11000))\<rparr>"]
      t [of "sample_world\<lparr>failing := Some (StoreError (NumberCode 121))\<rparr>"] facts
    by simp
qed

section \<open>Dates\<close>

lemma date_field_short:
  "length s \<le> 40 \<Longrightarrow> z_optional (z_string [z_max 40]) (Some (JStr s)) = Inr (Some s)"
  by (simp add: z_optional_def z_string_def failed_checks_def z_max_def)

lemma date_field_absent: "z_optional (z_string [z_max 40]) None = Inr None"
  by (simp add: z_optional_def)

lemma schema_without_date:
  assumes "p ''date'' = Some (JStr s)" and "length s \<le> 40"
  shows "blogPayloadSchema is_url (p(''date'' := None)) =
     (case blogPayloadSchema is_url p of
        Inl issues \<Rightarrow> Inl issues
      | Inr d \<Rightarrow> Inr (d\<lparr>in_date := None\<rparr>))"
  using assms unfolding blogPayloadSchema_def Let_def
  by (simp add: date_field_short date_field_absent tag_def split: sum.splits)

lemma schema_no_date_issue:
  assumes "p ''date'' = Some (JStr s)" and "length s \<le> 40"
    and "blogPayloadSchema is_url p = Inl issues"
  shows "(''date'', c) \<notin> set issues"
  using assms unfolding blogPayloadSchema_def Let_def
  by (auto simp add: date_field_short tag_def split: sum.splits)

lemma day_start:
  fixes t :: int
  shows "(t - t mod 86400000) mod 86400000 = 0"
    and "t - t mod 86400000 \<le> t"
    and "t < t - t mod 86400000 + 86400000"
  by (simp_all add: minus_mod_eq_mult_div)


lemma published_at_string:
  assumes "Date_parse [] = None"
  shows "published_at Date_parse (Some s) =
     (case Date_parse s of None \<Rightarrow> None | Some t \<Rightarrow> Some (t - t mod 86400000))"
  using assms by (simp add: published_at_def)

text \<open>
  C5, as the code has it. Take a create request past the middleware whose date is a string of at
  most 40 characters (the schema bounds the field) and whose slug candidate has a text (so
  that the request reaches validation), and a \<open>Date.parse\<close> for which the empty
  string is no date. Then the date plays no part in validation: no issue names the field,
  and the schema's verdict on the payload is its verdict on the payload without the date.
  When the payload is valid the answer is not 400 and the document handed to the store
  has, as \<open>publishedAt\<close>, the start of the UTC day of the parsed date (a multiple of
  86400000 ms, at most the date and less than a day before it), or no \<open>publishedAt\<close> when
  the string does not parse; a stored post carries the same value.
\<close>

theorem date_handling:
  assumes auth: "verifyToken cfg now authorization w = (None, w)"
    and date: "b ''date'' = Some (JStr s)"
    and short: "length s \<le> 40"
    and platform: "Date_parse [] = None"
    and candidate: "slug_candidate b = Some candidate"
    and payload: "p = b(''slug'' \<mapsto> JStr (sanitizeSlug candidate))"
    and result: "post_blogs is_url Date_parse cfg now authorization b w = (r, w')"
    and day: "day = (case Date_parse s of None \<Rightarrow> None | Some t \<Rightarrow> Some (t - t mod 86400000))"
  shows "(case blogPayloadSchema is_url p of
            Inl issues \<Rightarrow>
              (\<forall>c. (''date'', c) \<notin> set issues) \<and>
              blogPayloadSchema is_url (p(''date'' := None)) = Inl issues
          | Inr d \<Rightarrow>
              blogPayloadSchema is_url (p(''date'' := None)) = Inr (d\<lparr>in_date := None\<rparr>) \<and>
              status r \<noteq> 400 \<and>
              publishedAt (new_document Date_parse d) = day \<and>
              Save (new_document Date_parse d) \<in> set (trace w') \<and>
              (status r = 201 \<longrightarrow> posts w' \<noteq> [] \<and> publishedAt (last (posts w')) = day)) \<and>
         (\<forall>t. Date_parse s = Some t \<longrightarrow>
            (\<exists>t0. day = Some t0 \<and> t0 mod 86400000 = 0 \<and> t0 \<le> t \<and> t < t0 + 86400000))"
proof
  have pd: "p ''date'' = Some (JStr s)"
    using date by (simp add: payload)
  show "case blogPayloadSchema is_url p of
          Inl issues \<Rightarrow>
            (\<forall>c. (''date'', c) \<notin> set issues) \<and>
            blogPayloadSchema is_url (p(''date'' := None)) = Inl issues
        | Inr d \<Rightarrow>
            blogPayloadSchema is_url (p(''date'' := None)) = Inr (d\<lparr>in_date := None\<rparr>) \<and>
            status r \<noteq> 400 \<and>
            publishedAt (new_document Date_parse d) = day \<and>
            Save (new_document Date_parse d) \<in> set (trace w') \<and>
            (status r = 201 \<longrightarrow> posts w' \<noteq> [] \<and> publishedAt (last (posts w')) = day)"
  proof (cases "blogPayloadSchema is_url p")
    case (Inl issues)
    then show ?thesis
      using schema_without_date[where p = p and s = s and is_url = is_url, OF pd short]
        schema_no_date_issue[where p = p and s = s and is_url = is_url, OF pd short Inl]
      by simp
  next
    case (Inr d)
    have "in_date d = Some s"
      using schema_Inr(4)[OF Inr] pd short by (simp add: date_field_short)
    with pipeline_outcome[OF auth candidate Inr[unfolded payload] result refl]
    have pub: "publishedAt (new_document Date_parse d) = day"
      by (simp add: published_at_string[where Date_parse = Date_parse, OF platform] day)
    from pipeline_outcome[OF auth candidate Inr[unfolded payload] result refl] pub
    have "status r \<noteq> 400"
      and "Save (new_document Date_parse d) \<in> set (trace w')"
      and "status r = 201 \<longrightarrow> posts w' \<noteq> [] \<and> publishedAt (last (posts w')) = day"
      by (auto split: if_splits option.splits)
    with Inr pub show ?thesis
      using schema_without_date[where p = p and s = s and is_url = is_url, OF pd short] by simp
  qed
next
  show "\<forall>t. Date_parse s = Some t \<longrightarrow>
          (\<exists>t0. day = Some t0 \<and> t0 mod 86400000 = 0 \<and> t0 \<le> t \<and> t < t0 + 86400000)"
    using day_start by (simp add: day)
qed

text \<open>
  The claim C5 says that a date that does not parse never makes validation fail. A date
  string of 42 characters that does not parse is refused by the schema: the answer is
  400 and its one issue is on the date field. Without the date the same payload is stored.
\<close>

theorem long_date_fails_validation:
  "post_blogs (\<lambda>s. False) (\<lambda>s. None) sample_config 6000 (Some (''Bearer '' @ sample_token))
      (sample_body(''date'' \<mapsto> JStr sample_long_date)) sample_world =
     (\<lparr>status = 400, sent = InvalidPayload ''Invalid blog payload.'' [(''date'', too_big)]\<rparr>,
      sample_world) \<and>
   fst (post_blogs (\<lambda>s. False) (\<lambda>s. None) sample_config 6000 (Some (''Bearer '' @ sample_token))
      (sample_body(''date'' := None)) sample_world) =
     \<lparr>status = 201, sent = Created ''hello-world''\<rparr>"
  unfolding sample_route by code_simp

theorem date_handling_witness:
  "blogPayloadSchema (\<lambda>s. False)
      ((sample_body(''slug'' \<mapsto> JStr (sanitizeSlug ''Hello World'')))
         (''date'' := None)) = Inr (sample_data\<lparr>in_date := None\<rparr>) \<and>
   publishedAt (new_document sample_Date_parse sample_data) = Some 1704412800000 \<and>
   Save (new_document sample_Date_parse sample_data) \<in>
     set (trace (snd (post_blogs (\<lambda>s. False) sample_Date_parse sample_config 6000
                        (Some (''Bearer '' @ sample_token)) sample_body sample_world)))"
proof -
  have d: "sample_body ''date'' = Some (JStr ''2024-01-05T10:30:00Z'')"
    by (simp add: sample_body_def)
  have l: "length ''2024-01-05T10:30:00Z'' \<le> 40"
    by simp
  have e: "sample_Date_parse [] = None"
    by (simp add: sample_Date_parse_def)
  have t: "(case sample_Date_parse ''2024-01-05T10:30:00Z'' of
              None \<Rightarrow> None | Some t \<Rightarrow> Some (t - t mod 86400000)) = Some 1704412800000"
    by (simp add: sample_Date_parse_def)
  show ?thesis
    using date_handling [where cfg = sample_config and now = 6000
        and authorization = "Some (''Bearer '' @ sample_token)" and w = sample_world
        and b = sample_body and s = "''2024-01-05T10:30:00Z''" and Date_parse = sample_Date_parse
        and is_url = "\<lambda>s. False" and day = "Some 1704412800000",
        OF sample_authorized d l e sample_candidate refl prod.collapse [symmetric] t [symmetric]]
      sample_valid
    by simp
qed

section \<open>The summary\<close>

subsection \<open>Collapsing white space\<close>

lemma replace_runs_word:
  "\<forall>c \<in> set w. \<not> P c \<Longrightarrow> replace_runs P r (w @ s) = w @ replace_runs P r s"
  by (induction w) auto

lemma words_of_Nil: "words_of [] = []"
  by (simp add: words_of.simps)

lemma words_of_space: "is_space c \<Longrightarrow> words_of (c # cs) = words_of (dropWhile is_space cs)"
  by (simp add: words_of.simps[of "c # cs"] words_of.simps[of "dropWhile is_space cs"])

lemma words_of_word:
  "\<not> is_space c \<Longrightarrow>
   words_of (c # cs) =
     (c # takeWhile (\<lambda>x. \<not> is_space x) cs) # words_of (dropWhile (\<lambda>x. \<not> is_space x) cs)"
  by (simp add: words_of.simps[of "c # cs"])

lemma words_of_dropWhile: "words_of (dropWhile is_space s) = words_of s"
  by (induction s) (simp_all add: words_of_space)

lemma words_of_not_Nil: "\<not> is_space c \<Longrightarrow> words_of (c # cs) \<noteq> []"
  by (simp add: words_of_word)

lemma rtrim_append:
  assumes "\<exists>y \<in> set ys. \<not> is_space y"
  shows "rev (dropWhile is_space (rev (xs @ ys))) = xs @ rev (dropWhile is_space (rev ys))"
proof -
  from assms obtain y where "y \<in> set (rev ys)" "\<not> is_space y" by auto
  then have "dropWhile is_space (rev ys @ rev xs) = dropWhile is_space (rev ys) @ rev xs"
    by (rule dropWhile_append1)
  then show ?thesis by simp
qed

lemma rtrim_word:
  assumes "w \<noteq> []" and "\<forall>c \<in> set w. \<not> is_space c"
  shows "rev (dropWhile is_space (rev w)) = w"
proof -
  from assms have "rev w \<noteq> []" "\<not> is_space (hd (rev w))"
    by (auto simp add: hd_rev)
  then have "dropWhile is_space (rev w) = rev w"
    by (cases "rev w") auto
  then show ?thesis by simp
qed

lemma join_words_Cons:
  "ws \<noteq> [] \<Longrightarrow> join_words (w # ws) = w @ '' '' @ join_words ws"
  by (cases ws) auto

lemma space_is_space: "is_space CHR '' ''"
  by (simp add: is_space_def)

text \<open>
  From the start of a word on, the text with its runs of white space replaced and then
  trimmed on the right is the words of the text joined by single spaces.
\<close>

lemma collapse_from_word:
  "t = [] \<or> \<not> is_space (hd t) \<Longrightarrow>
   rev (dropWhile is_space (rev (replace_runs is_space '' '' t))) = join_words (words_of t)"
proof (induction t rule: length_induct)
  case (1 t)
  show ?case
  proof (cases t)
    case Nil
    then show ?thesis by (simp add: words_of_Nil)
  next
    case (Cons c cs)
    with 1(2) have c: "\<not> is_space c" by simp
    let ?w = "c # takeWhile (\<lambda>x. \<not> is_space x) cs"
    let ?rest = "dropWhile (\<lambda>x. \<not> is_space x) cs"
    have t: "t = ?w @ ?rest" using Cons by simp
    have w: "\<forall>x \<in> set ?w. \<not> is_space x" using c by (auto dest: set_takeWhileD)
    have R: "replace_runs is_space '' '' t = ?w @ replace_runs is_space '' '' ?rest"
      by (subst t) (rule replace_runs_word[OF w])
    have W: "words_of t = ?w # words_of ?rest"
      using Cons c by (simp add: words_of_word)
    show ?thesis
    proof (cases ?rest)
      case Nil
      have "replace_runs is_space '' '' t = ?w"
        unfolding R Nil by simp
      moreover have "words_of t = [?w]"
        unfolding W Nil by (simp add: words_of_Nil)
      moreover have "rev (dropWhile is_space (rev ?w)) = ?w"
        by (rule rtrim_word[OF _ w]) simp
      ultimately show ?thesis by simp
    next
      case rest: (Cons d ds)
      have d: "is_space d"
        using hd_dropWhile[of "\<lambda>x. \<not> is_space x" cs] rest by auto
      let ?t' = "dropWhile is_space ds"
      have R': "replace_runs is_space '' '' ?rest = '' '' @ replace_runs is_space '' '' ?t'"
        using rest d by simp
      have W': "words_of ?rest = words_of ?t'"
        using rest d by (simp add: words_of_space)
      show ?thesis
      proof (cases ?t')
        case Nil
        have "rev (dropWhile is_space (rev (?w @ '' ''))) = ?w"
          using rtrim_word[OF _ w] by (simp add: space_is_space)
        then show ?thesis
          using Nil by (simp add: R R' W W' words_of_Nil del: dropWhile_eq_Nil_conv)
      next
        case t': (Cons e es)
        have e: "\<not> is_space e"
          using hd_dropWhile[of is_space ds] t' by auto
        have len: "length ?t' < length t"
        proof -
          have "length ?t' \<le> length ds" by (rule length_dropWhile_le)
          moreover have "length ?rest \<le> length cs" by (rule length_dropWhile_le)
          ultimately show ?thesis using rest Cons by simp
        qed
        have start: "?t' = [] \<or> \<not> is_space (hd ?t')"
          using t' e by simp
        have IH: "rev (dropWhile is_space (rev (replace_runs is_space '' '' ?t'))) =
            join_words (words_of ?t')"
          by (rule 1(1)[rule_format, OF len start])
        have ne: "\<exists>y \<in> set (replace_runs is_space '' '' ?t'). \<not> is_space y"
          using t' e by auto
        have "rev (dropWhile is_space (rev ((?w @ '' '') @ replace_runs is_space '' '' ?t'))) =
            (?w @ '' '') @ rev (dropWhile is_space (rev (replace_runs is_space '' '' ?t')))"
          by (rule rtrim_append[OF ne])
        moreover have "words_of ?t' \<noteq> []"
          using t' e by (simp add: words_of_not_Nil)
        ultimately show ?thesis
          using IH by (simp add: R R' W W' join_words_Cons)
      qed
    qed
  qed
qed

lemma dropWhile_replace_runs:
  "dropWhile is_space (replace_runs is_space '' '' t) =
   replace_runs is_space '' '' (dropWhile is_space t)"
proof -
  have start: "dropWhile is_space (replace_runs is_space '' '' u) = replace_runs is_space '' '' u"
    if "u = [] \<or> \<not> is_space (hd u)" for u
    using that by (cases u) auto
  show ?thesis
  proof (cases t)
    case Nil
    then show ?thesis by simp
  next
    case (Cons c cs)
    have "dropWhile is_space cs = [] \<or> \<not> is_space (hd (dropWhile is_space cs))"
      using hd_dropWhile[of is_space cs] by blast
    from start[OF this] start[of t] Cons show ?thesis
      by (simp add: space_is_space)
  qed
qed

lemma trim_collapse:
  "trim (replace_runs is_space '' '' t) = collapse_whitespace t"
proof -
  have "dropWhile is_space t = [] \<or> \<not> is_space (hd (dropWhile is_space t))"
    using hd_dropWhile[of is_space t] by blast
  from collapse_from_word[OF this] show ?thesis
    by (simp add: trim_def collapse_whitespace_def dropWhile_replace_runs words_of_dropWhile)
qed

lemma summarize_collapse:
  "summarize s [] =
     (let plain = collapse_whitespace (strip_markdown s)
      in if length plain \<le> 180 then plain else take 180 plain @ ''...'')"
proof (cases "s = []")
  case True
  then show ?thesis
    by (simp add: summarize_def collapse_whitespace_def words_of_Nil)
next
  case False
  then show ?thesis
    by (simp add: summarize_def Let_def trim_collapse)
qed

subsection \<open>The links that are removed\<close>

lemma has_close_Cons:
  "has_close (c # s) \<longleftrightarrow> s \<noteq> [] \<and> ((c = CHR '']'' \<and> hd s = CHR ''('') \<or> has_close s)"
  by (cases s) auto

lemma after_text_split:
  "after_text cs = Some r \<Longrightarrow>
   \<exists>label. cs = label @ '']('' @ r \<and> (\<forall>c \<in> set label. \<not> is_line_terminator c) \<and>
           \<not> has_close (label @ '']'')"
proof (induction cs rule: after_text.induct)
  case 1
  then show ?case by simp
next
  case (2 c)
  then show ?case by simp
next
  case (3 c d cs)
  show ?case
  proof (cases "c = CHR '']'' \<and> d = CHR ''(''")
    case True
    with 3(2) have "r = cs"
      by (simp split: if_splits)
    with True show ?thesis
      by (intro exI[of _ "[]"]) simp
  next
    case False
    with 3(2) have c: "\<not> is_line_terminator c" and rest: "after_text (d # cs) = Some r"
      by (auto split: if_splits)
    from 3(1)[OF c False rest] obtain label
      where l: "d # cs = label @ '']('' @ r" "\<forall>c \<in> set label. \<not> is_line_terminator c"
        "\<not> has_close (label @ '']'')"
      by blast
    have "hd (label @ '']'') = d \<or> hd (label @ '']'') = CHR '']''"
      using l(1) by (cases label) auto
    with False l(3) have "\<not> has_close (c # label @ '']'')"
      by (auto simp add: has_close_Cons)
    with l c show ?thesis
      by (intro exI[of _ "c # label"]) simp
  qed
qed

lemma after_text_found:
  "(\<forall>c \<in> set label. \<not> is_line_terminator c) \<Longrightarrow> \<not> has_close (label @ '']'') \<Longrightarrow>
   after_text (label @ '']('' @ r) = Some r"
proof (induction label)
  case Nil
  then show ?case by (simp add: is_line_terminator_def)
next
  case (Cons c l)
  from Cons.prems(2) have nc: "\<not> has_close (l @ '']'')"
    and here: "\<not> (c = CHR '']'' \<and> hd (l @ '']'') = CHR ''('')"
    by (auto simp add: has_close_Cons)
  from Cons.IH[OF _ nc] Cons.prems(1) have IH: "after_text (l @ '']('' @ r) = Some r"
    by simp
  obtain d ds where split: "l @ '']('' @ r = d # ds" and d: "d = hd (l @ '']'')"
    by (cases l) auto
  with here have "\<not> (c = CHR '']'' \<and> d = CHR ''('')" by simp
  moreover from IH have "after_text (d # ds) = Some r"
    by (simp only: split)
  ultimately have step: "after_text (c # d # ds) = Some r"
    using Cons.prems(1) by auto
  have whole: "(c # l) @ '']('' @ r = c # d # ds"
    by (subst append_Cons, subst split, rule refl)
  show ?case
    by (subst whole) (rule step)
qed

lemma after_url_split:
  "after_url cs = Some r \<Longrightarrow>
   \<exists>url. cs = url @ '')'' @ r \<and> (\<forall>c \<in> set url. \<not> is_line_terminator c) \<and> CHR '')'' \<notin> set url"
proof (induction cs rule: after_url.induct)
  case 1
  then show ?case by simp
next
  case (2 c cs)
  show ?case
  proof (cases "c = CHR '')''")
    case True
    with 2(2) show ?thesis
      by (intro exI[of _ "[]"]) simp
  next
    case False
    with 2(2) have c: "\<not> is_line_terminator c" and rest: "after_url cs = Some r"
      by (auto split: if_splits)
    from 2(1)[OF False c rest] obtain url
      where "cs = url @ '')'' @ r" "\<forall>c \<in> set url. \<not> is_line_terminator c" "CHR '')'' \<notin> set url"
      by blast
    with False c show ?thesis
      by (intro exI[of _ "c # url"]) simp
  qed
qed

lemma after_url_found:
  "(\<forall>c \<in> set url. \<not> is_line_terminator c) \<Longrightarrow> CHR '')'' \<notin> set url \<Longrightarrow>
   after_url (url @ '')'' @ r) = Some r"
  by (induction url) auto

lemma link_rest_iff:
  "link_rest cs = Some r \<longleftrightarrow>
     (\<exists>label url. cs = label @ '']('' @ url @ '')'' @ r \<and> inline_link label url)"
proof
  assume "link_rest cs = Some r"
  then obtain m where m: "after_text cs = Some m" and r: "after_url m = Some r"
    by (auto simp add: link_rest_def split: option.splits)
  from after_text_split[OF m] obtain label
    where l: "cs = label @ '']('' @ m" "\<forall>c \<in> set label. \<not> is_line_terminator c"
      "\<not> has_close (label @ '']'')"
    by blast
  from after_url_split[OF r] obtain url
    where u: "m = url @ '')'' @ r" "\<forall>c \<in> set url. \<not> is_line_terminator c" "CHR '')'' \<notin> set url"
    by blast
  from l u show "\<exists>label url. cs = label @ '']('' @ url @ '')'' @ r \<and> inline_link label url"
    by (intro exI[of _ label] exI[of _ url]) (auto simp add: inline_link_def)
next
  assume "\<exists>label url. cs = label @ '']('' @ url @ '')'' @ r \<and> inline_link label url"
  then obtain label url where cs: "cs = label @ '']('' @ url @ '')'' @ r"
    and link: "inline_link label url"
    by blast
  from link have l: "\<forall>c \<in> set label. \<not> is_line_terminator c" "\<not> has_close (label @ '']'')"
    and u: "\<forall>c \<in> set url. \<not> is_line_terminator c" "CHR '')'' \<notin> set url"
    by (auto simp add: inline_link_def)
  have 1: "after_text (label @ '']('' @ url @ '')'' @ r) = Some (url @ '')'' @ r)"
    by (rule after_text_found[OF l])
  have 2: "after_url (url @ '')'' @ r) = Some r"
    by (rule after_url_found[OF u])
  show "link_rest cs = Some r"
    unfolding cs link_rest_def 1 using 2 by simp
qed

lemma bracket_not_punct: "\<not> is_md_punct CHR ''[''"
  by (simp add: is_md_punct_def)

lemma strip_markdown_link:
  assumes "inline_link label url"
  shows "strip_markdown (''['' @ label @ '']('' @ url @ '')'' @ r) = strip_markdown r"
proof -
  have "link_rest (label @ '']('' @ url @ '')'' @ r) = Some r"
    unfolding link_rest_iff using assms by blast
  then show ?thesis
    by (simp add: bracket_not_punct)
qed

lemma strip_markdown_bracket:
  assumes "\<nexists>label url r. cs = label @ '']('' @ url @ '')'' @ r \<and> inline_link label url"
  shows "strip_markdown (''['' @ cs) = ''['' @ strip_markdown cs"
proof -
  have "link_rest cs = None"
  proof (cases "link_rest cs")
    case None
    then show ?thesis .
  next
    case (Some r)
    with assms show ?thesis
      unfolding link_rest_iff by blast
  qed
  then show ?thesis
    by (simp add: bracket_not_punct)
qed

text \<open>
  C7, as the code has it. The public excerpt is the stored excerpt when that is not empty,
  and otherwise the summary of the content. The summary is made from the plain text: the
  content with the punctuation characters and the links stripped and its white space
  collapsed (its words, joined by single spaces). It is the plain text when that has at
  most 180 characters, and its first 180 characters followed by \<open>...\<close> otherwise.

  Stripping reads the text from the left. A character among \<open>#\<close>, \<open>>\<close>, \<open>*\<close>, \<open>_\<close>,
  backtick and hyphen is dropped. At an opening bracket, what is dropped is a link that
  lies on one line: the bracket, a label up to the first \<open>](\<close>, and a url up to the first
  closing parenthesis after it, that parenthesis included. A bracket that opens no such
  link is kept, and so is every other character.
\<close>

theorem public_excerpt:
  "out_excerpt (toBlogResponse toLocaleDateString d) =
     (if excerpt d \<noteq> [] then excerpt d else summarize (content d) []) \<and>
   summarize s [] =
     (let plain = collapse_whitespace (strip_markdown s)
      in if length plain \<le> 180 then plain else take 180 plain @ ''...'') \<and>
   strip_markdown [] = [] \<and>
   (\<forall>c cs. is_md_punct c \<longrightarrow> strip_markdown (c # cs) = strip_markdown cs) \<and>
   (\<forall>c cs. \<not> is_md_punct c \<and> c \<noteq> CHR ''['' \<longrightarrow>
      strip_markdown (c # cs) = c # strip_markdown cs) \<and>
   (\<forall>label url r. inline_link label url \<longrightarrow>
      strip_markdown (''['' @ label @ '']('' @ url @ '')'' @ r) = strip_markdown r) \<and>
   (\<forall>cs. (\<nexists>label url r. cs = label @ '']('' @ url @ '')'' @ r \<and> inline_link label url) \<longrightarrow>
      strip_markdown (''['' @ cs) = ''['' @ strip_markdown cs)"
proof (intro conjI allI impI)
  show "out_excerpt (toBlogResponse toLocaleDateString d) =
      (if excerpt d \<noteq> [] then excerpt d else summarize (content d) [])"
    by (simp add: toBlogResponse_def Let_def)
  show "summarize s [] =
      (let plain = collapse_whitespace (strip_markdown s)
       in if length plain \<le> 180 then plain else take 180 plain @ ''...'')"
    by (rule summarize_collapse)
  show "strip_markdown [] = []"
    by simp
next
  fix c cs assume "is_md_punct c"
  then show "strip_markdown (c # cs) = strip_markdown cs"
    by simp
next
  fix c cs assume "\<not> is_md_punct c \<and> c \<noteq> CHR ''[''"
  then show "strip_markdown (c # cs) = c # strip_markdown cs"
    by simp
next
  fix label url r assume "inline_link label url"
  then show "strip_markdown (''['' @ label @ '']('' @ url @ '')'' @ r) = strip_markdown r"
    by (rule strip_markdown_link)
next
  fix cs
  assume "\<nexists>label url r. cs = label @ '']('' @ url @ '')'' @ r \<and> inline_link label url"
  then show "strip_markdown (''['' @ cs) = ''['' @ strip_markdown cs"
    by (rule strip_markdown_bracket)
qed

text \<open>
  The claim C7 says that inline link syntax is stripped. A link whose label runs over two
  lines is kept, brackets and parentheses included. A link whose url holds a closing
  parenthesis is cut at that parenthesis, and the rest of the url stays. And the label of
  a link starts at the first opening bracket before it, so text between an earlier bracket
  and the link goes with the link.
\<close>

theorem link_syntax_left_in_place:
  "summarize (''See [the'' @ [CHR 0x0A] @ ''docs](http://x.y/z) now'') [] =
     ''See [the docs](http://x.y/z) now'' \<and>
   summarize ''see [docs](http://x.y/a_(b)) now'' [] = ''see ) now'' \<and>
   summarize ''say [hi] to (them) [a](b) now'' [] = ''say now''"
  by code_simp

theorem public_excerpt_witness:
  "out_excerpt (toBlogResponse (\<lambda>t. []) sample_post) =
     ''Title Some bold text here that is long enough.'' \<and>
   strip_markdown ''#a'' = strip_markdown ''a'' \<and>
   strip_markdown ''a#'' = ''a'' @ strip_markdown ''#'' \<and>
   strip_markdown ''[the docs](http://x.y/z) now'' = strip_markdown '' now'' \<and>
   strip_markdown ''[draft] text'' = ''['' @ strip_markdown ''draft] text'' \<and>
   summarize ''see [the docs](http://x.y/z) now'' [] = ''see now'' \<and>
   summarize (replicate 200 CHR ''a'') [] = replicate 180 CHR ''a'' @ ''...''"
proof -
  have 1: "excerpt sample_post = []"
    by (simp add: sample_post_def)
  have 2: "summarize (content sample_post) [] = ''Title Some bold text here that is long enough.''"
    by code_simp
  have 3: "is_md_punct CHR ''#''" "\<not> is_md_punct CHR ''a''"
    by (simp_all add: is_md_punct_def)
  have 4: "inline_link ''the docs'' ''http://x.y/z''"
    by (simp add: inline_link_def is_line_terminator_def)
  have 5: "\<nexists>label url r. ''draft] text'' = label @ '']('' @ url @ '')'' @ r \<and> inline_link label url"
  proof -
    have "link_rest ''draft] text'' = None"
      by (simp add: link_rest_def is_line_terminator_def)
    then show ?thesis
      using link_rest_iff[of "''draft] text''"] by auto
  qed
  have 6: "summarize ''see [the docs](http://x.y/z) now'' [] = ''see now''"
    "summarize (replicate 200 CHR ''a'') [] = replicate 180 CHR ''a'' @ ''...''"
    by code_simp+
  note t = public_excerpt [where d = sample_post and toLocaleDateString = "\<lambda>t. []"
      and s = "content sample_post"]
  from t have e: "out_excerpt (toBlogResponse (\<lambda>t. []) sample_post) =
      ''Title Some bold text here that is long enough.''"
    using 1 2 by simp
  from t 3 have p: "strip_markdown ''#a'' = strip_markdown ''a''"
    "strip_markdown ''a#'' = ''a'' @ strip_markdown ''#''"
    by simp_all
  from t 4 have l: "strip_markdown (''['' @ ''the docs'' @ '']('' @ ''http://x.y/z'' @ '')'' @ '' now'') =
      strip_markdown '' now''"
    by blast
  from t 5 have b: "strip_markdown (''['' @ ''draft] text'') = ''['' @ strip_markdown ''draft] text''"
    by blast
  from e p l b 6 show ?thesis
    by simp
qed

section \<open>Listing\<close>

subsection \<open>The sort of the store\<close>

lemma precedes_total: "precedes undated a b \<or> precedes undated b a"
  by (auto simp add: precedes_def)

lemma precedes_trans:
  "precedes undated a b \<Longrightarrow> precedes undated b c \<Longrightarrow> precedes undated a c"
  by (auto simp add: precedes_def)

lemma set_insert_post: "set (insert_post undated x ys) = insert x (set ys)"
  by (induction ys) auto

lemma sorted_insert_post:
  "sorted_wrt (precedes undated) ys \<Longrightarrow> sorted_wrt (precedes undated) (insert_post undated x ys)"
proof (induction ys)
  case Nil
  then show ?case by simp
next
  case (Cons y ys)
  show ?case
  proof (cases "precedes undated x y")
    case True
    with Cons.prems show ?thesis
      by (auto intro: precedes_trans)
  next
    case False
    with precedes_total[of undated x y] have "precedes undated y x" by simp
    with False Cons show ?thesis
      by (auto simp add: set_insert_post)
  qed
qed

lemma sorted_sort_posts: "sorted_wrt (precedes undated) (sort_posts undated xs)"
  unfolding sort_posts_def by (induction xs) (simp_all add: sorted_insert_post)

lemma count_insert_post: "count_list (insert_post undated x ys) z = count_list (x # ys) z"
  by (induction ys) auto

lemma count_sort_posts: "count_list (sort_posts undated xs) z = count_list xs z"
  unfolding sort_posts_def by (induction xs) (simp_all add: count_insert_post)

lemma insert_post_same: "insert_post undated x (replicate n x) = replicate (Suc n) x"
  by (cases n) (simp_all add: precedes_def)

lemma sort_posts_replicate: "sort_posts undated (replicate n x) = replicate n x"
  unfolding sort_posts_def by (induction n) (simp_all add: insert_post_same)

lemma sorted_dated:
  assumes "sorted_wrt (precedes undated) xs" and "i < j" and "j < length xs"
    and "publishedAt (xs ! i) = Some a" and "publishedAt (xs ! j) = Some b"
  shows "b < a \<or> (a = b \<and> createdAt (xs ! j) \<le> createdAt (xs ! i))"
proof -
  from sorted_wrt_nth_less[OF assms(1-3)] have "precedes undated (xs ! i) (xs ! j)" .
  with assms(4,5) show ?thesis
    by (simp add: precedes_def rank_def)
qed

subsection \<open>What \<open>parseInt\<close> reads\<close>

lemma parseInt10_digits:
  assumes "ds \<noteq> []" and "\<forall>c \<in> set ds. is_digit c"
  shows "parseInt10 ds = Some (int (read_digits ds))"
proof -
  from assms obtain c cs where ds: "ds = c # cs" and c: "is_digit c"
    by (cases ds) auto
  have 1: "dropWhile is_space ds = ds"
    using ds c by (simp add: digit_not_space)
  have 2: "hd ds \<noteq> CHR ''-''" "hd ds \<noteq> CHR ''+''"
    using ds c by (auto simp add: is_digit_def)
  have 3: "takeWhile is_digit ds = ds"
    using assms(2) by (simp add: takeWhile_eq_all_conv)
  show ?thesis
    using assms(1) by (simp add: parseInt10_def Let_def 1 2 3)
qed

lemma parseInt10_show_nat: "parseInt10 (show_nat n) = Some (int n)"
  using parseInt10_digits[of "show_nat n"]
  by (simp add: show_nat_not_Nil show_nat_digits read_show_nat)

lemma read_digits_leading_zeros: "read_digits (replicate z CHR ''0'' @ ds) = read_digits ds"
  by (induction z) (simp_all add: read_digits_def digit_val_def)

lemma parseInt10_parts:
  assumes "dropWhile is_space s = u"
    and "(if u \<noteq> [] \<and> (hd u = CHR ''-'' \<or> hd u = CHR ''+'') then tl u else u) = body"
    and "takeWhile is_digit body = ds" and "ds \<noteq> []"
  shows "parseInt10 s =
     Some ((if u \<noteq> [] \<and> hd u = CHR ''-'' then - 1 else 1) * int (read_digits ds))"
proof -
  have "parseInt10 s =
      (let t = u;
           signed = (t \<noteq> [] \<and> (hd t = CHR ''-'' \<or> hd t = CHR ''+''));
           ds = takeWhile is_digit (if signed then tl t else t)
       in if ds = [] then None
          else Some ((if signed \<and> hd t = CHR ''-'' then - 1 else 1) * int (read_digits ds)))"
    unfolding parseInt10_def assms(1) ..
  also have "\<dots> =
      Some ((if u \<noteq> [] \<and> hd u = CHR ''-'' then - 1 else 1) * int (read_digits ds))"
    unfolding Let_def assms(2) assms(3) using assms(4) by auto
  finally show ?thesis .
qed

text \<open>
  The text of an integer: white space, an optional sign, zeros, the decimal numeral of a
  natural number, and then no digit. \<open>parseInt\<close> reads that number, with that sign.
\<close>

lemma parseInt10_integer:
  assumes ws: "\<forall>c \<in> set ws. is_space c"
    and sg: "sg = [] \<or> sg = ''+'' \<or> sg = ''-''"
    and rest: "rest = [] \<or> \<not> is_digit (hd rest)"
  shows "parseInt10 (ws @ sg @ replicate z CHR ''0'' @ show_nat n @ rest) =
     Some ((if sg = ''-'' then - 1 else 1) * int n)"
proof -
  let ?D = "replicate z CHR ''0'' @ show_nat n"
  have zero: "is_digit CHR ''0''"
    by (simp add: is_digit_def)
  have D: "\<forall>c \<in> set ?D. is_digit c"
    using zero by (auto simp add: show_nat_digits)
  have Dne: "?D \<noteq> []"
    by (simp add: show_nat_not_Nil)
  have val: "read_digits ?D = n"
    by (simp only: read_digits_leading_zeros read_show_nat)
  have none: "takeWhile is_digit rest = []"
    using rest by (cases rest) auto
  have "takeWhile is_digit (?D @ rest) = ?D @ takeWhile is_digit rest"
    by (rule takeWhile_append2) (use D in blast)
  then have tw: "takeWhile is_digit (?D @ rest) = ?D"
    by (simp only: none append_Nil2)
  from Dne obtain d r0 where D0: "?D = d # r0"
    by (cases ?D) auto
  then have "d \<in> set ?D"
    by (simp only: list.set_intros)
  with D have d: "is_digit d" by blast
  have split: "?D @ rest = d # (r0 @ rest)"
    by (simp only: D0 append_Cons)
  have nsp: "\<not> is_space d"
    using d by (rule digit_not_space)
  have nsg: "d \<noteq> CHR ''-''" "d \<noteq> CHR ''+''"
    using d by (auto simp add: is_digit_def)
  have sp: "\<not> is_space CHR ''+''" "\<not> is_space CHR ''-''"
    by (simp_all add: is_space_def)
  define tail where "tail = ?D @ rest"
  have tail: "tail = d # (r0 @ rest)"
    unfolding tail_def by (rule split)
  have u: "dropWhile is_space (ws @ sg @ tail) = sg @ tail"
  proof -
    have "dropWhile is_space (ws @ sg @ tail) = dropWhile is_space (sg @ tail)"
      using ws by (simp add: dropWhile_append2)
    also have "\<dots> = sg @ tail"
      using sg nsp sp by (auto simp add: tail)
    finally show ?thesis .
  qed
  have body: "(if sg @ tail \<noteq> [] \<and> (hd (sg @ tail) = CHR ''-'' \<or> hd (sg @ tail) = CHR ''+'')
               then tl (sg @ tail) else sg @ tail) = tail"
    using sg nsg by (auto simp add: tail)
  have sign: "(sg @ tail \<noteq> [] \<and> hd (sg @ tail) = CHR ''-'') \<longleftrightarrow> sg = ''-''"
    using sg nsg by (auto simp add: tail)
  have tw': "takeWhile is_digit tail = ?D"
    unfolding tail_def by (rule tw)
  have "parseInt10 (ws @ sg @ tail) =
      Some ((if sg @ tail \<noteq> [] \<and> hd (sg @ tail) = CHR ''-'' then - 1 else 1) *
            int (read_digits ?D))"
    by (rule parseInt10_parts[OF u body tw' Dne])
  then have "parseInt10 (ws @ sg @ tail) = Some ((if sg = ''-'' then - 1 else 1) * int n)"
    unfolding sign val .
  then show ?thesis
    unfolding tail_def by (simp only: append_assoc)
qed

lemma parseInt10_leading:
  assumes "parseInt10 t = Some k"
  shows "\<exists>ws sg ds rest. t = ws @ sg @ ds @ rest \<and> (\<forall>c \<in> set ws. is_space c) \<and>
           (sg = [] \<or> sg = ''+'' \<or> sg = ''-'') \<and> ds \<noteq> [] \<and> (\<forall>c \<in> set ds. is_digit c)"
proof -
  let ?ws = "takeWhile is_space t"
  let ?u = "dropWhile is_space t"
  let ?signed = "?u \<noteq> [] \<and> (hd ?u = CHR ''-'' \<or> hd ?u = CHR ''+'')"
  let ?body = "if ?signed then tl ?u else ?u"
  let ?sg = "if ?signed then [hd ?u] else []"
  let ?ds = "takeWhile is_digit ?body"
  from assms have ds: "?ds \<noteq> []"
    by (auto simp add: parseInt10_def Let_def split: if_splits)
  have u: "?u = ?sg @ ?body"
    by simp
  have "t = ?ws @ ?u"
    by simp
  also have "\<dots> = ?ws @ ?sg @ ?ds @ dropWhile is_digit ?body"
    by (subst u) simp
  finally have t: "t = ?ws @ ?sg @ ?ds @ dropWhile is_digit ?body" .
  have ws: "\<forall>c \<in> set ?ws. is_space c"
    by (auto dest: set_takeWhileD)
  have sg: "?sg = [] \<or> ?sg = ''+'' \<or> ?sg = ''-''"
    by auto
  have digits: "\<forall>c \<in> set ?ds. is_digit c"
    by (auto dest: set_takeWhileD)
  from t ws sg ds digits show ?thesis
    by blast
qed

lemma parseInt10_undefined: "parseInt10 ''undefined'' = None"
  by (simp add: parseInt10_def is_space_def is_digit_def)

lemma show_nat_times_10: "0 < n \<Longrightarrow> show_nat (10 * n) = show_nat n @ ''0''"
  by (subst show_nat.simps) (simp add: digit_chars)

lemma show_nat_power_10: "show_nat (10 ^ k) = CHR ''1'' # replicate k CHR ''0''"
proof (induction k)
  case 0
  show ?case
    by (subst show_nat.simps) (simp add: digit_chars)
next
  case (Suc k)
  have "show_nat (10 ^ Suc k) = show_nat (10 ^ k) @ ''0''"
    using show_nat_times_10[of "10 ^ k"] by simp
  with Suc show ?case
    by (simp add: replicate_append_same)
qed

lemma huge_is_infinite: "\<not> Number_isFinite (10 ^ 309)"
  by (simp add: Number_isFinite_def)

lemma sample_huge_numeral: "sample_huge_limit = show_nat (10 ^ 309)"
  by (simp only: sample_huge_limit_def show_nat_power_10)

lemma safeLimit_huge: "safeLimit (parseInt10 sample_huge_limit) = None"
proof -
  have "parseInt10 sample_huge_limit = Some (int (10 ^ 309))"
    unfolding sample_huge_numeral by (rule parseInt10_show_nat)
  then show ?thesis
    using huge_is_infinite by (simp add: safeLimit_def)
qed

lemma safeLimit_bounds: "safeLimit parsedLimit = Some k \<Longrightarrow> 0 < k \<and> k \<le> 100"
  by (auto simp add: safeLimit_def split: option.splits if_splits)

lemma get_blogs_found:
  assumes "failing w = None" and "limit_text limit = Some t"
  shows "get_blogs undated toLocaleDateString limit w =
     (\<lparr>status = 200,
       sent = Posts (map (toBlogResponse toLocaleDateString)
                (case safeLimit (parseInt10 t) of
                   None \<Rightarrow> sort_posts undated (posts w)
                 | Some n \<Rightarrow> take n (sort_posts undated (posts w))))\<rparr>, w)"
proof (cases "safeLimit (parseInt10 t)")
  case None
  with assms show ?thesis
    by (simp add: get_blogs_def find_posts_def)
next
  case (Some k)
  with safeLimit_bounds[OF Some] assms show ?thesis
    by (simp add: get_blogs_def find_posts_def)
qed

text \<open>
  C6, as the code has it. Take a list request whose limit has a text (the text of an
  absent limit is \<open>undefined\<close>) and a store that answers. The answer is 200 with posts of
  the store in the order of the sort, cut at the cap when there is one, each mapped through
  \<open>toBlogResponse\<close>; neither the store nor the log changes. Of two returned posts that
  both have a \<open>publishedAt\<close>, the earlier in the list has the later \<open>publishedAt\<close>, or the
  same one and a \<open>createdAt\<close> that is not earlier. A cap is positive and at most 100. When
  the text begins with an integer (white space, an optional sign, zeros, the decimal
  numeral of \<open>n\<close>, and then no digit), the cap is the smaller of \<open>n\<close> and 100 if the sign
  is not a minus and \<open>n\<close> is positive and finite as a number (below \<open>2^1024 - 2^970\<close>),
  and there is no cap otherwise. There is no cap for a text that does not begin, after
  white space and an optional sign, with a digit, and none for an absent limit.
\<close>

theorem list_posts:
  assumes up: "failing w = None"
    and param: "limit_text limit = Some t"
    and result: "get_blogs undated toLocaleDateString limit w = (r, w')"
  shows "w' = w \<and>
         (\<exists>cap found.
            r = \<lparr>status = 200, sent = Posts (map (toBlogResponse toLocaleDateString) found)\<rparr> \<and>
            found = (case cap of
                       None \<Rightarrow> sort_posts undated (posts w)
                     | Some n \<Rightarrow> take n (sort_posts undated (posts w))) \<and>
            sorted_wrt (precedes undated) found \<and>
            (\<forall>i j a b. i < j \<and> j < length found \<and>
               publishedAt (found ! i) = Some a \<and> publishedAt (found ! j) = Some b \<longrightarrow>
               b < a \<or> (a = b \<and> createdAt (found ! j) \<le> createdAt (found ! i))) \<and>
            (\<forall>k. cap = Some k \<longrightarrow> 0 < k \<and> k \<le> 100) \<and>
            (\<forall>ws sg z n rest.
               t = ws @ sg @ replicate z CHR ''0'' @ show_nat n @ rest \<and>
               (\<forall>c \<in> set ws. is_space c) \<and> (sg = [] \<or> sg = ''+'' \<or> sg = ''-'') \<and>
               (rest = [] \<or> \<not> is_digit (hd rest)) \<longrightarrow>
               cap = (if sg \<noteq> ''-'' \<and> 0 < n \<and> int n < 2 ^ 1024 - 2 ^ 970
                      then Some (min n 100) else None)) \<and>
            ((\<nexists>ws sg ds rest. t = ws @ sg @ ds @ rest \<and> (\<forall>c \<in> set ws. is_space c) \<and>
                (sg = [] \<or> sg = ''+'' \<or> sg = ''-'') \<and> ds \<noteq> [] \<and> (\<forall>c \<in> set ds. is_digit c)) \<longrightarrow>
               cap = None) \<and>
            (limit = None \<longrightarrow> cap = None)) \<and>
         (\<forall>z. count_list (sort_posts undated (posts w)) z = count_list (posts w) z)"
proof (intro conjI)
  let ?cap = "safeLimit (parseInt10 t)"
  let ?found = "case ?cap of
                  None \<Rightarrow> sort_posts undated (posts w)
                | Some n \<Rightarrow> take n (sort_posts undated (posts w))"
  note run = get_blogs_found[OF up param, of undated toLocaleDateString]
  with result show "w' = w" by simp
  from run result
  have r: "r = \<lparr>status = 200, sent = Posts (map (toBlogResponse toLocaleDateString) ?found)\<rparr>"
    by simp
  have sorted: "sorted_wrt (precedes undated) ?found"
    by (auto simp add: sorted_sort_posts sorted_wrt_take split: option.splits)
  have dated: "\<forall>i j a b. i < j \<and> j < length ?found \<and>
      publishedAt (?found ! i) = Some a \<and> publishedAt (?found ! j) = Some b \<longrightarrow>
      b < a \<or> (a = b \<and> createdAt (?found ! j) \<le> createdAt (?found ! i))"
    using sorted_dated[OF sorted] by blast
  have bounds: "\<forall>k. ?cap = Some k \<longrightarrow> 0 < k \<and> k \<le> 100"
    using safeLimit_bounds by blast
  have integer: "\<forall>ws sg z n rest.
      t = ws @ sg @ replicate z CHR ''0'' @ show_nat n @ rest \<and>
      (\<forall>c \<in> set ws. is_space c) \<and> (sg = [] \<or> sg = ''+'' \<or> sg = ''-'') \<and>
      (rest = [] \<or> \<not> is_digit (hd rest)) \<longrightarrow>
      ?cap = (if sg \<noteq> ''-'' \<and> 0 < n \<and> int n < 2 ^ 1024 - 2 ^ 970
              then Some (min n 100) else None)"
  proof (intro allI impI)
    fix ws sg z n rest
    assume h: "t = ws @ sg @ replicate z CHR ''0'' @ show_nat n @ rest \<and>
      (\<forall>c \<in> set ws. is_space c) \<and> (sg = [] \<or> sg = ''+'' \<or> sg = ''-'') \<and>
      (rest = [] \<or> \<not> is_digit (hd rest))"
    then have p: "parseInt10 t = Some ((if sg = ''-'' then - 1 else 1) * int n)"
      using parseInt10_integer[of ws sg rest z n] by blast
    have m: "nat (min (int n) 100) = min n 100"
      by (auto simp add: min_def)
    show "?cap = (if sg \<noteq> ''-'' \<and> 0 < n \<and> int n < 2 ^ 1024 - 2 ^ 970
        then Some (min n 100) else None)"
    proof (cases "sg = ''-''")
      case True
      with p have "parseInt10 t = Some (- int n)" by simp
      then have "?cap = None"
        by (simp add: safeLimit_def)
      with True show ?thesis by simp
    next
      case False
      with p have "parseInt10 t = Some (int n)" by simp
      then have "?cap = (if \<bar>int n\<bar> < 2 ^ 1024 - 2 ^ 970 \<and> 0 < int n
          then Some (min n 100) else None)"
        by (simp only: safeLimit_def Number_isFinite_def option.case m)
      with False show ?thesis by auto
    qed
  qed
  have other: "(\<nexists>ws sg ds rest. t = ws @ sg @ ds @ rest \<and> (\<forall>c \<in> set ws. is_space c) \<and>
      (sg = [] \<or> sg = ''+'' \<or> sg = ''-'') \<and> ds \<noteq> [] \<and> (\<forall>c \<in> set ds. is_digit c)) \<longrightarrow>
      ?cap = None"
  proof
    assume none: "\<nexists>ws sg ds rest. t = ws @ sg @ ds @ rest \<and> (\<forall>c \<in> set ws. is_space c) \<and>
      (sg = [] \<or> sg = ''+'' \<or> sg = ''-'') \<and> ds \<noteq> [] \<and> (\<forall>c \<in> set ds. is_digit c)"
    have "parseInt10 t = None"
    proof (cases "parseInt10 t")
      case None
      then show ?thesis .
    next
      case (Some k)
      from parseInt10_leading[OF Some] none show ?thesis by blast
    qed
    then show "?cap = None"
      by (simp add: safeLimit_def)
  qed
  have absent: "limit = None \<longrightarrow> ?cap = None"
    using param by (auto simp add: limit_text_def parseInt10_undefined safeLimit_def)
  from r sorted dated bounds integer other absent
  show "\<exists>cap found.
      r = \<lparr>status = 200, sent = Posts (map (toBlogResponse toLocaleDateString) found)\<rparr> \<and>
      found = (case cap of
                 None \<Rightarrow> sort_posts undated (posts w)
               | Some n \<Rightarrow> take n (sort_posts undated (posts w))) \<and>
      sorted_wrt (precedes undated) found \<and>
      (\<forall>i j a b. i < j \<and> j < length found \<and>
         publishedAt (found ! i) = Some a \<and> publishedAt (found ! j) = Some b \<longrightarrow>
         b < a \<or> (a = b \<and> createdAt (found ! j) \<le> createdAt (found ! i))) \<and>
      (\<forall>k. cap = Some k \<longrightarrow> 0 < k \<and> k \<le> 100) \<and>
      (\<forall>ws sg z n rest.
         t = ws @ sg @ replicate z CHR ''0'' @ show_nat n @ rest \<and>
         (\<forall>c \<in> set ws. is_space c) \<and> (sg = [] \<or> sg = ''+'' \<or> sg = ''-'') \<and>
         (rest = [] \<or> \<not> is_digit (hd rest)) \<longrightarrow>
         cap = (if sg \<noteq> ''-'' \<and> 0 < n \<and> int n < 2 ^ 1024 - 2 ^ 970
                then Some (min n 100) else None)) \<and>
      ((\<nexists>ws sg ds rest. t = ws @ sg @ ds @ rest \<and> (\<forall>c \<in> set ws. is_space c) \<and>
          (sg = [] \<or> sg = ''+'' \<or> sg = ''-'') \<and> ds \<noteq> [] \<and> (\<forall>c \<in> set ds. is_digit c)) \<longrightarrow>
         cap = None) \<and>
      (limit = None \<longrightarrow> cap = None)"
    by (intro exI[of _ ?cap] exI[of _ ?found] conjI) (rule refl | assumption)+
  show "\<forall>z. count_list (sort_posts undated (posts w)) z = count_list (posts w) z"
    by (simp add: count_sort_posts)
qed

text \<open>
  The claim C6 says that a limit that is a positive integer caps the list at 100, and that
  a limit that is not numeric means no cap. The decimal numeral of \<open>10^309\<close> is a positive
  integer, its number value is infinite, and the route takes it for no limit: the list of
  every store that answers is returned whole, the 101 posts of a store of 101 posts for
  one. The limit \<open>12abc\<close> is not numeric, and the route caps the list at 12: \<open>parseInt\<close>
  reads the integer the text begins with.
\<close>

theorem huge_limit_is_no_cap:
  "sample_huge_limit = show_nat (10 ^ 309) \<and>
   (\<forall>undated w.
      fst (get_blogs undated (\<lambda>t. []) (Some (JStr sample_huge_limit)) (w\<lparr>failing := None\<rparr>)) =
        \<lparr>status = 200,
         sent = Posts (map (toBlogResponse (\<lambda>t. [])) (sort_posts undated (posts w)))\<rparr>) \<and>
   fst (get_blogs createdAt (\<lambda>t. []) (Some (JStr sample_huge_limit))
          \<lparr>posts = replicate 101 sample_post, failing = None, trace = []\<rparr>) =
     \<lparr>status = 200, sent = Posts (replicate 101 (toBlogResponse (\<lambda>t. []) sample_post))\<rparr> \<and>
   fst (get_blogs createdAt (\<lambda>t. []) (Some (JStr ''12abc''))
          \<lparr>posts = replicate 101 sample_post, failing = None, trace = []\<rparr>) =
     \<lparr>status = 200, sent = Posts (replicate 12 (toBlogResponse (\<lambda>t. []) sample_post))\<rparr>"
proof -
  have t: "limit_text (Some (JStr sample_huge_limit)) = Some sample_huge_limit"
    by (simp add: limit_text_def)
  have every: "\<forall>undated w.
      fst (get_blogs undated (\<lambda>t. []) (Some (JStr sample_huge_limit)) (w\<lparr>failing := None\<rparr>)) =
        \<lparr>status = 200,
         sent = Posts (map (toBlogResponse (\<lambda>t. [])) (sort_posts undated (posts w)))\<rparr>"
    by (simp add: get_blogs_found[OF _ t] safeLimit_huge)
  have many: "fst (get_blogs createdAt (\<lambda>t. []) (Some (JStr sample_huge_limit))
          \<lparr>posts = replicate 101 sample_post, failing = None, trace = []\<rparr>) =
     \<lparr>status = 200, sent = Posts (replicate 101 (toBlogResponse (\<lambda>t. []) sample_post))\<rparr>"
    by (simp add: get_blogs_found[OF _ t] safeLimit_huge sort_posts_replicate)
  have t12: "limit_text (Some (JStr ''12abc'')) = Some ''12abc''"
    by (simp add: limit_text_def)
  have cap12: "safeLimit (parseInt10 ''12abc'') = Some 12"
    by (simp add: safeLimit_def parseInt10_def is_space_def is_digit_def read_digits_def
        digit_val_def Number_isFinite_def)
  have twelve: "fst (get_blogs createdAt (\<lambda>t. []) (Some (JStr ''12abc''))
          \<lparr>posts = replicate 101 sample_post, failing = None, trace = []\<rparr>) =
     \<lparr>status = 200, sent = Posts (replicate 12 (toBlogResponse (\<lambda>t. []) sample_post))\<rparr>"
    by (simp add: get_blogs_found[OF _ t12] cap12 sort_posts_replicate)
  show ?thesis
    by (intro conjI sample_huge_numeral every many twelve)
qed

theorem list_posts_witness:
  "fst (get_blogs createdAt (\<lambda>t. []) (Some (JStr ''2'')) sample_store) =
     \<lparr>status = 200,
      sent = Posts
        [\<lparr>out_slug = ''third'', out_title = ''Third'', out_author = ''Perceptron Team'',
          out_excerpt = ''The third post.'', out_image = None,
          out_content = ''Twenty characters of content.'', out_date = []\<rparr>,
         \<lparr>out_slug = ''second'', out_title = ''Second'', out_author = ''Perceptron Team'',
          out_excerpt = ''The second post.'', out_image = None,
          out_content = ''Twenty characters of content.'', out_date = []\<rparr>]\<rparr>"
proof -
  have up: "failing sample_store = None"
    by (simp add: sample_store_def)
  have param: "limit_text (Some (JStr ''2'')) = Some ''2''"
    by (simp add: limit_text_def)
  have two: "''2'' = show_nat 2"
    by (simp add: show_nat.simps digit_chars)
  have 2: "map (toBlogResponse (\<lambda>t. [])) (take 2 (sort_posts createdAt (posts sample_store))) =
        [\<lparr>out_slug = ''third'', out_title = ''Third'', out_author = ''Perceptron Team'',
          out_excerpt = ''The third post.'', out_image = None,
          out_content = ''Twenty characters of content.'', out_date = []\<rparr>,
         \<lparr>out_slug = ''second'', out_title = ''Second'', out_author = ''Perceptron Team'',
          out_excerpt = ''The second post.'', out_image = None,
          out_content = ''Twenty characters of content.'', out_date = []\<rparr>]"
    by code_simp
  from list_posts [OF up param prod.collapse [symmetric], where undated = createdAt
      and toLocaleDateString = "\<lambda>t. []"]
  obtain cap found
    where r: "fst (get_blogs createdAt (\<lambda>t. []) (Some (JStr ''2'')) sample_store) =
        \<lparr>status = 200, sent = Posts (map (toBlogResponse (\<lambda>t. [])) found)\<rparr>"
      and f: "found = (case cap of
                         None \<Rightarrow> sort_posts createdAt (posts sample_store)
                       | Some n \<Rightarrow> take n (sort_posts createdAt (posts sample_store)))"
      and c: "\<forall>ws sg z n rest.
                ''2'' = ws @ sg @ replicate z CHR ''0'' @ show_nat n @ rest \<and>
                (\<forall>c \<in> set ws. is_space c) \<and> (sg = [] \<or> sg = ''+'' \<or> sg = ''-'') \<and>
                (rest = [] \<or> \<not> is_digit (hd rest)) \<longrightarrow>
                cap = (if sg \<noteq> ''-'' \<and> 0 < n \<and> int n < 2 ^ 1024 - 2 ^ 970
                       then Some (min n 100) else None)"
    by (elim conjE exE)
  have "''2'' = [] @ [] @ replicate 0 CHR ''0'' @ show_nat 2 @ []"
    using two by simp
  with c[rule_format, of "[]" "[]" 0 2 "[]"] have "cap = Some 2"
    by simp
  with r f 2 show ?thesis
    by simp
qed

section \<open>Login and verification\<close>

lemma load_config_secrets:
  assumes "load_config e = Some cfg"
  shows "ADMIN_SECRET_KEY cfg \<noteq> []" and "AUTH_TOKEN_SECRET cfg \<noteq> []"
  using assms by (auto simp add: load_config_def Let_def split: if_splits)

lemma jwt_sign_encode:
  assumes "secret \<noteq> []" and "ms expiresIn = Some m"
  shows "jwt_sign ms p secret expiresIn now = Some (jwt_encode p (int now + m) secret)"
  using assms by (simp add: jwt_sign_def)

lemma jwt_sign_throws:
  assumes "ms expiresIn = None"
  shows "jwt_sign ms p secret expiresIn now = None"
  using assms by (simp add: jwt_sign_def)

lemma jwt_encode_not_Nil: "jwt_encode c e key \<noteq> []"
  by (simp add: jwt_encode_def)

text \<open>
  C2, as the code has it. Under a configuration the process starts with, a login that
  carries the admin secret is answered 200 with a token whenever \<open>TOKEN_EXPIRY\<close> denotes a
  duration. \<open>/auth/verify\<close> on that token, at a clock reading before the login's plus that
  duration, answers 200 with the decoded claims, whose scope contains \<open>blog:create\<close> and
  whose \<open>issuedAt\<close> is the clock reading of the login; from that instant on it answers 401.
\<close>

theorem login_then_verify:
  assumes cfg: "load_config e = Some cfg"
    and secret: "b ''secretKey'' = Some (JStr (ADMIN_SECRET_KEY cfg))"
    and expiry: "ms (TOKEN_EXPIRY cfg) = Some m"
  shows "\<exists>token.
           auth_login ms cfg now b = \<lparr>status = 200, sent = Token token (TOKEN_EXPIRY cfg)\<rparr> \<and>
           (if int later < int now + m
            then \<exists>decoded.
                   auth_verify cfg later [''token'' \<mapsto> JStr token] =
                     \<lparr>status = 200, sent = Valid decoded\<rparr> \<and>
                   ''blog:create'' \<in> set (scope decoded) \<and>
                   issuedAt decoded = now
            else auth_verify cfg later [''token'' \<mapsto> JStr token] =
                   \<lparr>status = 401, sent = NotValid ''Invalid or expired token.''\<rparr>)"
proof -
  let ?c = "\<lparr>scope = [''blog:create''], issuedAt = now\<rparr>"
  let ?token = "jwt_encode ?c (int now + m) (AUTH_TOKEN_SECRET cfg)"
  have sign: "jwt_sign ms (buildTokenPayload now) (AUTH_TOKEN_SECRET cfg) (TOKEN_EXPIRY cfg) now =
      Some ?token"
    using load_config_secrets(2)[OF cfg] expiry
    by (simp add: jwt_sign_encode buildTokenPayload_def)
  have login: "auth_login ms cfg now b = \<lparr>status = 200, sent = Token ?token (TOKEN_EXPIRY cfg)\<rparr>"
    using secret load_config_secrets(1)[OF cfg] sign
    by (simp add: auth_login_def Let_def)
  have verify: "auth_verify cfg later [''token'' \<mapsto> JStr ?token] =
      (if int later < int now + m
       then \<lparr>status = 200, sent = Valid ?c\<rparr>
       else \<lparr>status = 401, sent = NotValid ''Invalid or expired token.''\<rparr>)"
    by (simp add: auth_verify_def jwt_encode_not_Nil jwt_verify_encode)
  show ?thesis
  proof (intro exI[of _ ?token] conjI)
    show "auth_login ms cfg now b = \<lparr>status = 200, sent = Token ?token (TOKEN_EXPIRY cfg)\<rparr>"
      by (rule login)
    show "if int later < int now + m
          then \<exists>decoded.
                 auth_verify cfg later [''token'' \<mapsto> JStr ?token] =
                   \<lparr>status = 200, sent = Valid decoded\<rparr> \<and>
                 ''blog:create'' \<in> set (scope decoded) \<and>
                 issuedAt decoded = now
          else auth_verify cfg later [''token'' \<mapsto> JStr ?token] =
                 \<lparr>status = 401, sent = NotValid ''Invalid or expired token.''\<rparr>"
      using verify by (cases "int later < int now + m") auto
  qed
qed

lemma sample_load: "load_config sample_env = Some sample_config"
  by (simp add: load_config_def sample_env_def sample_config_def or_default_def)

lemma sample_load_expiry:
  "s \<noteq> [] \<Longrightarrow>
   load_config (sample_env(''TOKEN_EXPIRY'' \<mapsto> s)) = Some (sample_config\<lparr>TOKEN_EXPIRY := s\<rparr>)"
  by (simp add: load_config_def sample_env_def sample_config_def or_default_def)

lemma sample_login:
  "auth_login sample_ms sample_config 5000 [''secretKey'' \<mapsto> JStr ''hunter2''] =
     \<lparr>status = 200, sent = Token sample_token ''30m''\<rparr>"
proof -
  have "jwt_sign sample_ms (buildTokenPayload 5000) ''s3cret'' ''30m'' 5000 = Some sample_token"
    by (simp add: jwt_sign_encode[where m = 1800000] sample_ms_def buildTokenPayload_def
        sample_token_encode)
  then show ?thesis
    by (simp add: auth_login_def sample_config_def)
qed

lemma sample_verify:
  "auth_verify sample_config later [''token'' \<mapsto> JStr sample_token] =
     (if int later < 1805000
      then \<lparr>status = 200, sent = Valid \<lparr>scope = [''blog:create''], issuedAt = 5000\<rparr>\<rparr>
      else \<lparr>status = 401, sent = NotValid ''Invalid or expired token.''\<rparr>)"
proof -
  have "sample_token \<noteq> []"
    by (simp add: sample_token_def)
  then show ?thesis
    by (simp add: auth_verify_def sample_token_encode jwt_verify_encode sample_config_def)
qed

lemma sample_login_unreadable:
  "auth_login sample_ms (sample_config\<lparr>TOKEN_EXPIRY := ''soon''\<rparr>) 5000
       [''secretKey'' \<mapsto> JStr ''hunter2''] =
     \<lparr>status = 500, sent = Unhandled\<rparr>"
proof -
  have "jwt_sign sample_ms (buildTokenPayload 5000) ''s3cret'' ''soon'' 5000 = None"
    by (rule jwt_sign_throws) (simp add: sample_ms_def)
  then show ?thesis
    by (simp add: auth_login_def sample_config_def)
qed

lemma sample_login_0s:
  "auth_login sample_ms (sample_config\<lparr>TOKEN_EXPIRY := ''0s''\<rparr>) 5000
       [''secretKey'' \<mapsto> JStr ''hunter2''] =
     \<lparr>status = 200, sent = Token sample_token_0s ''0s''\<rparr>"
proof -
  have "jwt_sign sample_ms (buildTokenPayload 5000) ''s3cret'' ''0s'' 5000 = Some sample_token_0s"
    by (simp add: jwt_sign_encode[where m = 0] sample_ms_def buildTokenPayload_def
        sample_token_0s_encode)
  then show ?thesis
    by (simp add: auth_login_def sample_config_def)
qed

lemma sample_verify_0s:
  "auth_verify (sample_config\<lparr>TOKEN_EXPIRY := ''0s''\<rparr>) 5000 [''token'' \<mapsto> JStr sample_token_0s] =
     \<lparr>status = 401, sent = NotValid ''Invalid or expired token.''\<rparr>"
proof -
  have "sample_token_0s \<noteq> []"
    by (simp add: sample_token_0s_def)
  then show ?thesis
    by (simp add: auth_verify_def sample_token_0s_encode jwt_verify_encode sample_config_def)
qed

text \<open>
  The claim C2 says that every login with the admin secret returns a token and that
  verification of that token succeeds. When \<open>TOKEN_EXPIRY\<close> is set to \<open>soon\<close>, which denotes
  no duration, signing throws and the login is answered 500 with no token. When it is set
  to \<open>0s\<close> the login returns a token, and verification of that token at the very clock
  reading of the login is answered 401: the token is expired from its issuance on.
\<close>

theorem login_without_valid_token:
  "load_config (sample_env(''TOKEN_EXPIRY'' \<mapsto> ''soon'')) =
     Some (sample_config\<lparr>TOKEN_EXPIRY := ''soon''\<rparr>) \<and>
   auth_login sample_ms (sample_config\<lparr>TOKEN_EXPIRY := ''soon''\<rparr>) 5000
       [''secretKey'' \<mapsto> JStr ''hunter2''] =
     \<lparr>status = 500, sent = Unhandled\<rparr> \<and>
   load_config (sample_env(''TOKEN_EXPIRY'' \<mapsto> ''0s'')) =
     Some (sample_config\<lparr>TOKEN_EXPIRY := ''0s''\<rparr>) \<and>
   auth_login sample_ms (sample_config\<lparr>TOKEN_EXPIRY := ''0s''\<rparr>) 5000
       [''secretKey'' \<mapsto> JStr ''hunter2''] =
     \<lparr>status = 200, sent = Token sample_token_0s ''0s''\<rparr> \<and>
   auth_verify (sample_config\<lparr>TOKEN_EXPIRY := ''0s''\<rparr>) 5000 [''token'' \<mapsto> JStr sample_token_0s] =
     \<lparr>status = 401, sent = NotValid ''Invalid or expired token.''\<rparr>"
  by (simp add: sample_load_expiry sample_login_unreadable sample_login_0s sample_verify_0s)

theorem login_then_verify_witness:
  "auth_login sample_ms sample_config 5000 [''secretKey'' \<mapsto> JStr ''hunter2''] =
     \<lparr>status = 200, sent = Token sample_token ''30m''\<rparr> \<and>
   auth_verify sample_config 6000 [''token'' \<mapsto> JStr sample_token] =
     \<lparr>status = 200, sent = Valid \<lparr>scope = [''blog:create''], issuedAt = 5000\<rparr>\<rparr>"
proof -
  have s: "[''secretKey'' \<mapsto> JStr ''hunter2''] ''secretKey'' =
      Some (JStr (ADMIN_SECRET_KEY sample_config))"
    by (simp add: sample_config_def)
  have m: "sample_ms (TOKEN_EXPIRY sample_config) = Some 1800000"
    by (simp add: sample_ms_def sample_config_def)
  from login_then_verify [where e = sample_env and cfg = sample_config and ms = sample_ms
      and b = "[''secretKey'' \<mapsto> JStr ''hunter2'']" and m = 1800000 and now = 5000
      and later = 6000, OF sample_load s m]
  show ?thesis
    by (auto simp add: sample_login sample_verify)
qed

end
